theory Spec2Isabelle
  imports Complex_Main
begin

section \<open>Python strings\<close>

text \<open>
  A Python \<open>str\<close> is a sequence of code points. It is modelled as a \<^typ>\<open>string\<close>
  whose characters are the code points below 256 (\<open>of_char c\<close> is the code point of
  \<open>c\<close>); text with code points beyond that range is outside this model.
\<close>

definition comma :: char where
  "comma = CHR 0x2C"

definition dquote :: char where
  "dquote = CHR 0x22"

definition newline :: char where
  "newline = CHR 0x0A"

text \<open>
  \<open>str.isspace\<close> on one character: the code points below 256 that Python counts as
  whitespace are TAB, LF, VT, FF, CR, the separators 0x1C to 0x1F, SPACE, NEL (0x85) and
  NO-BREAK SPACE (0xA0).
\<close>

definition isspace :: "char \<Rightarrow> bool" where
  "isspace c = ((of_char c :: nat) \<in> {9, 10, 11, 12, 13, 28, 29, 30, 31, 32, 133, 160})"

text \<open>\<open>s.strip()\<close>: whitespace removed at both ends.\<close>

definition strip :: "string \<Rightarrow> string" where
  "strip s = rev (dropWhile isspace (rev (dropWhile isspace s)))"

text \<open>\<open>s.strip(c)\<close> for a one-character argument: every leading and trailing \<open>c\<close> removed.\<close>

definition strip_char :: "char \<Rightarrow> string \<Rightarrow> string" where
  "strip_char c s = rev (dropWhile (\<lambda>x. x = c) (rev (dropWhile (\<lambda>x. x = c) s)))"

text \<open>
  \<open>s.split(sep)\<close> for a one-character separator. The result is never empty, so the
  first branch of the inner case distinction is never taken.
\<close>

fun split :: "char \<Rightarrow> string \<Rightarrow> string list" where
  "split sep [] = [[]]"
| "split sep (c # cs) =
     (if c = sep then [] # split sep cs
      else (case split sep cs of
              [] \<Rightarrow> [[c]]
            | piece # pieces \<Rightarrow> (c # piece) # pieces))"

section \<open>The field pattern\<close>

text \<open>
  \<open>re.findall(r'([^,"]+|"[^"]*")', line)\<close>. The scan goes left to right. At a character
  that is neither a comma nor a double quote the first alternative matches the longest
  run of such characters. At a double quote only the second alternative can match, and
  it does when a later double quote exists: the match is the span up to and including
  the next one. Where nothing matches (a comma, or a double quote with no later double
  quote) the scan moves one character on. The pattern has one group, around all of it,
  so each result is the matched text.
\<close>

definition plain :: "char \<Rightarrow> bool" where
  "plain c = (c \<noteq> comma \<and> c \<noteq> dquote)"

function findall_fields :: "string \<Rightarrow> string list" where
  "findall_fields [] = []"
| "findall_fields (c # cs) =
     (if plain c then (c # takeWhile plain cs) # findall_fields (dropWhile plain cs)
      else if c = dquote \<and> dquote \<in> set cs
        then (c # takeWhile (\<lambda>x. x \<noteq> dquote) cs @ [dquote])
               # findall_fields (tl (dropWhile (\<lambda>x. x \<noteq> dquote) cs))
      else findall_fields cs)"
  by pat_completeness auto
termination
proof (relation "measure length")
  fix c :: char and cs :: string
  have "length (dropWhile (\<lambda>x. x \<noteq> dquote) cs) \<le> length cs"
    by (rule length_dropWhile_le)
  then show "(tl (dropWhile (\<lambda>x. x \<noteq> dquote) cs), c # cs) \<in> measure length"
    by simp
next
  fix c :: char and cs :: string
  have "length (dropWhile plain cs) \<le> length cs"
    by (rule length_dropWhile_le)
  then show "(dropWhile plain cs, c # cs) \<in> measure length"
    by simp
qed simp_all

section \<open>Exceptions and numbers\<close>

text \<open>
  The exceptions of the parsing and fetching path. \<open>float()\<close> and \<open>int()\<close> raise
  \<open>ValueError\<close> on a text they reject; the text is kept. Whatever \<open>urlopen\<close>,
  \<open>read\<close> or \<open>decode\<close> raise is a \<open>Fetch_error\<close> carrying its description.
\<close>

datatype py_exception =
    ValueError_float string
  | ValueError_int string
  | Fetch_error string

text \<open>
  A Python \<open>float\<close>. The rounding of \<open>float()\<close> to the nearest binary64 value is not
  modelled: a finite value is the exact decimal that the text denotes. So a decimal
  beyond the binary64 range stays finite here, and minus zero is zero.
\<close>

datatype py_float = Finite rat | Infinity | Neg_infinity | NaN

definition isdigit :: "char \<Rightarrow> bool" where
  "isdigit c = (48 \<le> (of_char c :: nat) \<and> (of_char c :: nat) \<le> 57)"

definition digit_value :: "char \<Rightarrow> nat" where
  "digit_value c = of_char c - 48"

text \<open>The number written by a sequence of decimal digits, most significant first.\<close>

definition decimal :: "string \<Rightarrow> nat" where
  "decimal ds = foldl (\<lambda>n c. 10 * n + digit_value c) 0 ds"

text \<open>
  Underscores in a numeric literal: each one stands between two digits. The result is
  the text without them, or \<open>None\<close> where an underscore is misplaced. \<open>prev\<close> is the
  character before the current one (\<open>None\<close> at the start).
\<close>

fun remove_underscores :: "char option \<Rightarrow> string \<Rightarrow> string option" where
  "remove_underscores prev [] =
     (if prev = Some CHR ''_'' then None else Some [])"
| "remove_underscores prev (c # cs) =
     (if c = CHR ''_''
      then (case prev of
              None \<Rightarrow> None
            | Some p \<Rightarrow> if isdigit p then remove_underscores (Some c) cs else None)
      else if prev = Some CHR ''_'' \<and> \<not> isdigit c then None
      else map_option ((#) c) (remove_underscores (Some c) cs))"

text \<open>An optional sign: whether it is a minus, and the text after it.\<close>

fun read_sign :: "string \<Rightarrow> bool \<times> string" where
  "read_sign [] = (False, [])"
| "read_sign (c # cs) =
     (if c = CHR ''-'' then (True, cs)
      else if c = CHR ''+'' then (False, cs)
      else (False, c # cs))"

text \<open>
  \<open>int(s)\<close> in base 10: surrounding whitespace, an optional sign, then digits with
  single underscores allowed between them. (The limit on the number of digits of recent
  Python versions is not modelled.)
\<close>

definition py_int :: "string \<Rightarrow> py_exception + int" where
  "py_int s =
     (let (neg, body) = read_sign (strip s)
      in case remove_underscores None body of
           None \<Rightarrow> Inl (ValueError_int s)
         | Some ds \<Rightarrow>
             if ds \<noteq> [] \<and> list_all isdigit ds
             then Inr (if neg then - int (decimal ds) else int (decimal ds))
             else Inl (ValueError_int s))"

definition to_lower :: "char \<Rightarrow> char" where
  "to_lower c =
     (if 65 \<le> (of_char c :: nat) \<and> (of_char c :: nat) \<le> 90
      then char_of ((of_char c :: nat) + 32) else c)"

text \<open>The value of mantissa digits \<open>ip.fp\<close> scaled by a power of ten.\<close>

definition scaled :: "bool \<Rightarrow> string \<Rightarrow> string \<Rightarrow> int \<Rightarrow> py_float" where
  "scaled neg ip fp e =
     (let m = rat_of_nat (decimal (ip @ fp));
          k = e - int (length fp);
          v = (if 0 \<le> k then m * 10 ^ nat k else m / 10 ^ nat (- k))
      in Finite (if neg then - v else v))"

text \<open>
  \<open>float(s)\<close>: surrounding whitespace, underscores between digits, an optional sign, then
  \<open>inf\<close>, \<open>infinity\<close> or \<open>nan\<close> in any letter case, or a decimal number with at least
  one digit in its integer or fractional part and an optional exponent.
\<close>

definition parse_exponent :: "string \<Rightarrow> int option" where
  "parse_exponent r =
     (case r of
        [] \<Rightarrow> Some 0
      | c # cs \<Rightarrow>
          if c = CHR ''e'' \<or> c = CHR ''E''
          then (let (eneg, ds) = read_sign cs
                in if ds \<noteq> [] \<and> list_all isdigit ds
                   then Some (if eneg then - int (decimal ds) else int (decimal ds))
                   else None)
          else None)"

definition parse_decimal :: "bool \<Rightarrow> string \<Rightarrow> py_float option" where
  "parse_decimal neg body =
     (let ip = takeWhile isdigit body;
          r1 = dropWhile isdigit body;
          (fp, r2) = (case r1 of
                        [] \<Rightarrow> ([], [])
                      | c # cs \<Rightarrow>
                          if c = CHR ''.'' then (takeWhile isdigit cs, dropWhile isdigit cs)
                          else ([], r1))
      in if ip = [] \<and> fp = [] then None
         else map_option (scaled neg ip fp) (parse_exponent r2))"

definition py_float :: "string \<Rightarrow> py_exception + py_float" where
  "py_float s =
     (case remove_underscores None (strip s) of
        None \<Rightarrow> Inl (ValueError_float s)
      | Some t \<Rightarrow>
          (let (neg, body) = read_sign t;
               word = map to_lower body
           in if word = ''inf'' \<or> word = ''infinity''
              then Inr (if neg then Neg_infinity else Infinity)
              else if word = ''nan'' then Inr NaN
              else (case parse_decimal neg body of
                      None \<Rightarrow> Inl (ValueError_float s)
                    | Some v \<Rightarrow> Inr v)))"

section \<open>The record parser\<close>

text \<open>
  The dictionary that \<open>_parse_wifi_line\<close> builds has the same fifteen keys on every
  path, in this order; it is a record.
\<close>

record wifi_network =
  bss :: string
  tsf :: string
  freq :: py_float
  beacon :: int
  capa :: string
  signal :: py_float
  ssid :: string
  ht_capa :: string
  primary_channel :: int
  vht_capa :: string
  he_capa :: string
  he_phy_capa :: string
  encryption :: string
  cipher :: string
  suite :: string

text \<open>
  \<open>cleaned_fields = [field.strip('"').strip() for field in fields if field.strip()]\<close>:
  the condition strips whitespace only, from the token as matched.
\<close>

definition clean_field :: "string \<Rightarrow> string" where
  "clean_field field = strip (strip_char dquote field)"

definition cleaned_fields :: "string \<Rightarrow> string list" where
  "cleaned_fields line =
     map clean_field (filter (\<lambda>field. strip field \<noteq> []) (findall_fields line))"

text \<open>\<open>cleaned_fields[i] if len(cleaned_fields) > i else default\<close>\<close>

definition text_field :: "string list \<Rightarrow> nat \<Rightarrow> string \<Rightarrow> string" where
  "text_field cleaned i dflt = (if length cleaned > i then cleaned ! i else dflt)"

text \<open>\<open>float(cleaned_fields[i]) if len(cleaned_fields) > i and cleaned_fields[i] else 0.0\<close>\<close>

definition float_field :: "string list \<Rightarrow> nat \<Rightarrow> py_exception + py_float" where
  "float_field cleaned i =
     (if length cleaned > i \<and> cleaned ! i \<noteq> [] then py_float (cleaned ! i)
      else Inr (Finite 0))"

text \<open>\<open>int(cleaned_fields[i]) if len(cleaned_fields) > i and cleaned_fields[i] else 0\<close>\<close>

definition int_field :: "string list \<Rightarrow> nat \<Rightarrow> py_exception + int" where
  "int_field cleaned i =
     (if length cleaned > i \<and> cleaned ! i \<noteq> [] then py_int (cleaned ! i)
      else Inr 0)"

text \<open>
  \<open>_parse_wifi_line\<close>. The values of the dictionary display are evaluated in key order,
  so the first conversion that raises, in the order freq, beacon, signal,
  primary_channel, ends the call.
\<close>

definition parse_wifi_line :: "string \<Rightarrow> py_exception + wifi_network" where
  "parse_wifi_line line =
     (let cleaned = cleaned_fields line
      in (case float_field cleaned 2 of Inl e \<Rightarrow> Inl e | Inr freq_value \<Rightarrow>
         (case int_field cleaned 3 of Inl e \<Rightarrow> Inl e | Inr beacon_value \<Rightarrow>
         (case float_field cleaned 5 of Inl e \<Rightarrow> Inl e | Inr signal_value \<Rightarrow>
         (case int_field cleaned 8 of Inl e \<Rightarrow> Inl e | Inr channel_value \<Rightarrow>
           Inr \<lparr> bss = text_field cleaned 0 '''',
                 tsf = text_field cleaned 1 '''',
                 freq = freq_value,
                 beacon = beacon_value,
                 capa = text_field cleaned 4 ''0x0'',
                 signal = signal_value,
                 ssid = text_field cleaned 6 '''',
                 ht_capa = text_field cleaned 7 ''0x0'',
                 primary_channel = channel_value,
                 vht_capa = text_field cleaned 9 ''0x0'',
                 he_capa = text_field cleaned 10 ''0x0'',
                 he_phy_capa = text_field cleaned 11 '''',
                 encryption = text_field cleaned 12 '''',
                 cipher = text_field cleaned 13 '''',
                 suite = text_field cleaned 14 '''' \<rparr>)))))"

text \<open>
  The loop of \<open>_parse_wifi_content\<close> over the lines, with \<open>networks\<close> as the
  accumulator. A line that is empty after \<open>strip()\<close> is skipped. The test
  \<open>if network:\<close> is on a dictionary of fifteen keys, which is never empty, so every
  parsed line is appended. An exception of \<open>_parse_wifi_line\<close> leaves the loop and the
  function.
\<close>

fun parse_lines :: "wifi_network list \<Rightarrow> string list \<Rightarrow> py_exception + wifi_network list" where
  "parse_lines networks [] = Inr networks"
| "parse_lines networks (line # lines) =
     (if strip line = [] then parse_lines networks lines
      else (case parse_wifi_line line of
              Inl e \<Rightarrow> Inl e
            | Inr network \<Rightarrow> parse_lines (networks @ [network]) lines))"

text \<open>\<open>_parse_wifi_content\<close>: \<open>lines = content.strip().split('\n')\<close>, then the loop.\<close>

definition parse_wifi_content :: "string \<Rightarrow> py_exception + wifi_network list" where
  "parse_wifi_content content = parse_lines [] (split newline (strip content))"

section \<open>JSON output\<close>

text \<open>
  The values that the handler passes to \<open>json.dumps\<close>: strings, integers, floats, lists,
  and dictionaries with string keys in insertion order.
\<close>

datatype json =
    JString string
  | JInt int
  | JFloat py_float
  | JArray "json list"
  | JObject "(string \<times> json) list"

definition backslash :: char where
  "backslash = CHR 0x5C"

definition hex_digit :: "nat \<Rightarrow> char" where
  "hex_digit d = ''0123456789abcdef'' ! (d mod 16)"

text \<open>\<open>'\\u{0:04x}'.format(n)\<close> for a code point below 0x10000.\<close>

definition unicode_escape :: "nat \<Rightarrow> string" where
  "unicode_escape n =
     [backslash, CHR ''u'', hex_digit (n div 4096), hex_digit (n div 256),
      hex_digit (n div 16), hex_digit n]"

text \<open>
  The replacement of one character by \<open>json.encoder.py_encode_basestring_ascii\<close>: the
  backslash, the double quote and every character outside the range from space to tilde
  are escaped, with short forms for backspace, form feed, newline, carriage return and
  tab.
\<close>

definition escape_char :: "char \<Rightarrow> string" where
  "escape_char c =
     (if c = backslash then [backslash, backslash]
      else if c = dquote then [backslash, dquote]
      else if c = CHR 0x08 then [backslash, CHR ''b'']
      else if c = CHR 0x0C then [backslash, CHR ''f'']
      else if c = CHR 0x0A then [backslash, CHR ''n'']
      else if c = CHR 0x0D then [backslash, CHR ''r'']
      else if c = CHR 0x09 then [backslash, CHR ''t'']
      else if 32 \<le> (of_char c :: nat) \<and> (of_char c :: nat) \<le> 126 then [c]
      else unicode_escape (of_char c))"

definition encode_basestring_ascii :: "string \<Rightarrow> string" where
  "encode_basestring_ascii s = dquote # concat (map escape_char s) @ [dquote]"

text \<open>\<open>str(n)\<close> for an integer: decimal digits, with a minus sign when negative.\<close>

function nat_digits :: "nat \<Rightarrow> string" where
  "nat_digits n =
     (if n < 10 then [char_of (48 + n)]
      else nat_digits (n div 10) @ [char_of (48 + n mod 10)])"
  by pat_completeness auto
termination
  by (relation "measure (\<lambda>n. n)") auto

definition int_repr :: "int \<Rightarrow> string" where
  "int_repr i = (if i < 0 then CHR ''-'' # nat_digits (nat (- i)) else nat_digits (nat i))"

text \<open>
  \<open>floatstr\<close> of the encoder: the three special values have fixed names, and a finite
  value is printed by \<open>float.__repr__\<close>. That function prints the shortest decimal that
  reads back as the same binary64 value; it is the parameter \<open>float_repr\<close>.
\<close>

definition floatstr :: "(rat \<Rightarrow> string) \<Rightarrow> py_float \<Rightarrow> string" where
  "floatstr float_repr x =
     (case x of
        NaN \<Rightarrow> ''NaN''
      | Infinity \<Rightarrow> ''Infinity''
      | Neg_infinity \<Rightarrow> ''-Infinity''
      | Finite q \<Rightarrow> float_repr q)"

text \<open>\<open>sep.join(pieces)\<close>\<close>

fun join :: "string \<Rightarrow> string list \<Rightarrow> string" where
  "join sep [] = []"
| "join sep [piece] = piece"
| "join sep (piece # pieces) = piece @ sep @ join sep pieces"

text \<open>
  With \<open>indent\<close> given, items are separated by a comma and each starts on a line of its
  own, indented by \<open>indent\<close> spaces per nesting level; without it, items are separated
  by a comma and a space on one line. Keys and values are separated by a colon and a
  space in both cases.
\<close>

definition newline_indent :: "nat option \<Rightarrow> nat \<Rightarrow> string" where
  "newline_indent indent level =
     (case indent of
        None \<Rightarrow> []
      | Some k \<Rightarrow> newline # replicate (k * level) CHR '' '')"

definition item_separator :: "nat option \<Rightarrow> string" where
  "item_separator indent = (case indent of None \<Rightarrow> '', '' | Some k \<Rightarrow> '','')"

fun iterencode :: "(rat \<Rightarrow> string) \<Rightarrow> nat option \<Rightarrow> nat \<Rightarrow> json \<Rightarrow> string" where
  "iterencode float_repr indent level (JString s) = encode_basestring_ascii s"
| "iterencode float_repr indent level (JInt i) = int_repr i"
| "iterencode float_repr indent level (JFloat x) = floatstr float_repr x"
| "iterencode float_repr indent level (JArray items) =
     (if items = [] then ''[]''
      else ''['' @ newline_indent indent (level + 1)
           @ join (item_separator indent @ newline_indent indent (level + 1))
               (map (iterencode float_repr indent (level + 1)) items)
           @ newline_indent indent level @ '']'')"
| "iterencode float_repr indent level (JObject members) =
     (if members = [] then ''{}''
      else ''{'' @ newline_indent indent (level + 1)
           @ join (item_separator indent @ newline_indent indent (level + 1))
               (map (\<lambda>member. encode_basestring_ascii (fst member) @ '': ''
                        @ iterencode float_repr indent (level + 1) (snd member)) members)
           @ newline_indent indent level @ ''}'')"

text \<open>\<open>json.dumps(obj, indent=indent)\<close>\<close>

definition json_dumps :: "(rat \<Rightarrow> string) \<Rightarrow> nat option \<Rightarrow> json \<Rightarrow> string" where
  "json_dumps float_repr indent obj = iterencode float_repr indent 0 obj"

text \<open>
  \<open>s.encode('utf-8')\<close>, the result a sequence of bytes: a code point below 128 is one
  byte, one from 128 to 255 is two.
\<close>

definition encode_utf8 :: "string \<Rightarrow> string" where
  "encode_utf8 s =
     concat (map (\<lambda>c. if (of_char c :: nat) < 128 then [c]
                       else [char_of (192 + (of_char c :: nat) div 64),
                             char_of (128 + (of_char c :: nat) mod 64)]) s)"

section \<open>The request handler\<close>

text \<open>
  What a handler method does is the sequence of its calls on the base class and on the
  output stream, in order. (\<open>send_response\<close> itself also emits the \<open>Server\<close> and
  \<open>Date\<close> headers of the library; they are part of that call.) Writing to the stream
  is taken to succeed.
\<close>

datatype action =
    Send_response nat
  | Send_header string string
  | End_headers
  | Wfile_write string

text \<open>The dictionary of one network as a JSON value, keys in the order they are set.\<close>

definition network_json :: "wifi_network \<Rightarrow> json" where
  "network_json n =
     JObject [(''bss'', JString (bss n)),
              (''tsf'', JString (tsf n)),
              (''freq'', JFloat (freq n)),
              (''beacon'', JInt (beacon n)),
              (''capa'', JString (capa n)),
              (''signal'', JFloat (signal n)),
              (''ssid'', JString (ssid n)),
              (''ht_capa'', JString (ht_capa n)),
              (''primary_channel'', JInt (primary_channel n)),
              (''vht_capa'', JString (vht_capa n)),
              (''he_capa'', JString (he_capa n)),
              (''he_phy_capa'', JString (he_phy_capa n)),
              (''encryption'', JString (encryption n)),
              (''cipher'', JString (cipher n)),
              (''suite'', JString (suite n))]"

text \<open>\<open>_serve_404\<close>\<close>

definition serve_404 :: "action list" where
  "serve_404 =
     [Send_response 404,
      Send_header ''Content-Type'' ''text/plain; charset=utf-8'',
      End_headers,
      Wfile_write ''Ruta no encontrada. Use /air para obtener datos Wi-Fi.'']"

text \<open>\<open>_serve_error\<close>\<close>

definition serve_error :: "(rat \<Rightarrow> string) \<Rightarrow> string \<Rightarrow> action list" where
  "serve_error float_repr message =
     [Send_response 500,
      Send_header ''Content-Type'' ''application/json; charset=utf-8'',
      End_headers,
      Wfile_write (encode_utf8 (json_dumps float_repr None
                     (JObject [(''error'', JString message)])))]"

text \<open>
  \<open>_fetch_and_parse_wifi_data\<close>. The download is outside the program: \<open>fetched\<close> is
  its outcome, the decoded text or the exception that \<open>urlopen\<close>, \<open>read\<close> or
  \<open>decode\<close> raised.
\<close>

definition fetch_and_parse_wifi_data ::
    "py_exception + string \<Rightarrow> py_exception + wifi_network list" where
  "fetch_and_parse_wifi_data fetched =
     (case fetched of
        Inl e \<Rightarrow> Inl e
      | Inr content \<Rightarrow> parse_wifi_content content)"

text \<open>
  \<open>_serve_wifi_data\<close>. \<open>describe\<close> is \<open>str(e)\<close>, the description that Python gives
  of an exception.
\<close>

definition serve_wifi_data ::
    "(rat \<Rightarrow> string) \<Rightarrow> (py_exception \<Rightarrow> string) \<Rightarrow> py_exception + string \<Rightarrow> action list" where
  "serve_wifi_data float_repr describe fetched =
     (case fetch_and_parse_wifi_data fetched of
        Inr wifi_data \<Rightarrow>
          [Send_response 200,
           Send_header ''Content-Type'' ''application/json; charset=utf-8'',
           Send_header ''Access-Control-Allow-Origin'' ''*'',
           End_headers,
           Wfile_write (encode_utf8 (json_dumps float_repr (Some 2)
                          (JArray (map network_json wifi_data))))]
      | Inl e \<Rightarrow> serve_error float_repr (''Error procesando datos: '' @ describe e))"

text \<open>\<open>do_GET\<close>\<close>

definition do_GET ::
    "(rat \<Rightarrow> string) \<Rightarrow> (py_exception \<Rightarrow> string) \<Rightarrow> string \<Rightarrow> py_exception + string \<Rightarrow> action list" where
  "do_GET float_repr describe path fetched =
     (if path = ''/air'' then serve_wifi_data float_repr describe fetched
      else serve_404)"

section \<open>Properties of the string operations\<close>

lemma dropWhile_Nil_iff: "dropWhile P xs = [] \<longleftrightarrow> (\<forall>x\<in>set xs. P x)"
  by (induction xs) auto

lemma dropWhile_none: "\<forall>x\<in>set xs. \<not> P x \<Longrightarrow> dropWhile P xs = xs"
  by (cases xs) auto

text \<open>\<open>strip\<close> leaves nothing exactly when every character is whitespace.\<close>

lemma strip_Nil_iff: "strip s = [] \<longleftrightarrow> (\<forall>c\<in>set s. isspace c)"
proof
  assume "strip s = []"
  then have a: "\<forall>x\<in>set (dropWhile isspace s). isspace x"
    by (simp add: strip_def dropWhile_Nil_iff)
  have "dropWhile isspace s = []"
  proof (rule ccontr)
    assume ne: "dropWhile isspace s \<noteq> []"
    then have "\<not> isspace (hd (dropWhile isspace s))"
      by (rule hd_dropWhile)
    moreover have "hd (dropWhile isspace s) \<in> set (dropWhile isspace s)"
      using ne by simp
    ultimately show False
      using a by blast
  qed
  then show "\<forall>c\<in>set s. isspace c"
    by (simp add: dropWhile_Nil_iff)
next
  assume "\<forall>c\<in>set s. isspace c"
  then have h: "dropWhile isspace s = []"
    by (simp add: dropWhile_Nil_iff)
  show "strip s = []"
    by (simp only: strip_def h) simp
qed

lemma set_strip: "set (strip s) \<subseteq> set s"
proof -
  have "set (strip s) = set (dropWhile isspace (rev (dropWhile isspace s)))"
    by (simp add: strip_def)
  also have "\<dots> \<subseteq> set (rev (dropWhile isspace s))"
    by (auto dest: set_dropWhileD)
  also have "\<dots> \<subseteq> set s"
    by (auto dest: set_dropWhileD)
  finally show ?thesis .
qed

lemma strip_char_absent: "c \<notin> set t \<Longrightarrow> strip_char c t = t"
proof -
  assume a: "c \<notin> set t"
  have 1: "dropWhile (\<lambda>x. x = c) t = t"
    using a by (intro dropWhile_none) auto
  have 2: "dropWhile (\<lambda>x. x = c) (rev t) = rev t"
    using a by (intro dropWhile_none) auto
  show ?thesis
    by (simp add: strip_char_def 1 2)
qed

lemma strip_char_quoted:
  "dquote \<notin> set q \<Longrightarrow> strip_char dquote (dquote # q @ [dquote]) = q"
proof (cases "q = []")
  case True
  then show ?thesis
    by (simp add: strip_char_def)
next
  case False
  assume a: "dquote \<notin> set q"
  have 1: "dropWhile (\<lambda>x. x = dquote) (q @ [dquote]) = q @ [dquote]"
    using a False by (cases q) auto
  have 2: "dropWhile (\<lambda>x. x = dquote) (rev q) = rev q"
    using a by (intro dropWhile_none) auto
  show ?thesis
    by (simp add: strip_char_def 1 2)
qed

section \<open>Properties of the tokenizer\<close>

text \<open>
  Every token is either a non-empty run of characters other than comma and double
  quote, or a span between two double quotes with none inside.
\<close>

lemma findall_fields_shape:
  "t \<in> set (findall_fields s) \<Longrightarrow>
     (t \<noteq> [] \<and> (\<forall>c\<in>set t. plain c)) \<or> (\<exists>q. t = dquote # q @ [dquote] \<and> dquote \<notin> set q)"
proof (induction s rule: findall_fields.induct)
  case 1
  then show ?case by simp
next
  case (2 c cs)
  show ?case
  proof (cases "plain c")
    case True
    with 2 show ?thesis
      by (auto dest: set_takeWhileD)
  next
    case False
    show ?thesis
    proof (cases "c = dquote \<and> dquote \<in> set cs")
      case True
      with 2 False show ?thesis
        by (auto dest: set_takeWhileD)
    next
      case unmatched: False
      with 2 False show ?thesis
        by auto
    qed
  qed
qed

lemma findall_fields_comma: "findall_fields (comma # r) = findall_fields r"
  by (simp add: plain_def comma_def dquote_def)

lemma findall_fields_open_quote:
  "dquote \<notin> set r \<Longrightarrow> findall_fields (dquote # r) = findall_fields r"
  by (simp add: plain_def)

lemma findall_fields_quoted:
  "dquote \<notin> set q \<Longrightarrow>
     findall_fields (dquote # q @ dquote # r) = (dquote # q @ [dquote]) # findall_fields r"
proof -
  assume a: "dquote \<notin> set q"
  have 1: "takeWhile (\<lambda>x. x \<noteq> dquote) (q @ dquote # r) = q"
    using a by (auto simp add: takeWhile_tail)
  have 2: "dropWhile (\<lambda>x. x \<noteq> dquote) (q @ dquote # r) = dquote # r"
    using a by (auto simp add: dropWhile_append3)
  show ?thesis
    by (simp add: plain_def 1 2)
qed

text \<open>
  A prefix without double quotes is tokenized on its own when a comma or a double quote
  follows it.
\<close>

lemma findall_fields_append:
  "dquote \<notin> set a \<Longrightarrow> \<not> plain c \<Longrightarrow>
     findall_fields (a @ c # r) = findall_fields a @ findall_fields (c # r)"
proof (induction a rule: findall_fields.induct)
  case 1
  then show ?case by simp
next
  case (2 x xs)
  show ?case
  proof (cases "plain x")
    case True
    have t: "takeWhile plain (xs @ c # r) = takeWhile plain xs"
      using \<open>\<not> plain c\<close> by (simp add: takeWhile_tail)
    have d: "dropWhile plain (xs @ c # r) = dropWhile plain xs @ c # r"
      using \<open>\<not> plain c\<close> by (simp add: dropWhile_append3)
    have "dquote \<notin> set (dropWhile plain xs)"
      using "2.prems"(1) by (auto dest: set_dropWhileD)
    then have "findall_fields (dropWhile plain xs @ c # r) =
        findall_fields (dropWhile plain xs) @ findall_fields (c # r)"
      using "2.IH"(1) True "2.prems"(2) by blast
    then show ?thesis
      using True by (simp add: t d)
  next
    case False
    have nq: "x \<noteq> dquote"
      using "2.prems"(1) by auto
    have "dquote \<notin> set xs"
      using "2.prems"(1) by auto
    then have "findall_fields (xs @ c # r) = findall_fields xs @ findall_fields (c # r)"
      using "2.IH"(3) False nq "2.prems"(2) by blast
    then show ?thesis
      using False nq by simp
  qed
qed

section \<open>Properties of the record parser\<close>

text \<open>The fields of a returned record, one by one.\<close>

lemma parse_wifi_line_fields:
  assumes "parse_wifi_line line = Inr n"
  shows "bss n = text_field (cleaned_fields line) 0 ''''"
    and "tsf n = text_field (cleaned_fields line) 1 ''''"
    and "float_field (cleaned_fields line) 2 = Inr (freq n)"
    and "int_field (cleaned_fields line) 3 = Inr (beacon n)"
    and "capa n = text_field (cleaned_fields line) 4 ''0x0''"
    and "float_field (cleaned_fields line) 5 = Inr (signal n)"
    and "ssid n = text_field (cleaned_fields line) 6 ''''"
    and "ht_capa n = text_field (cleaned_fields line) 7 ''0x0''"
    and "int_field (cleaned_fields line) 8 = Inr (primary_channel n)"
    and "vht_capa n = text_field (cleaned_fields line) 9 ''0x0''"
    and "he_capa n = text_field (cleaned_fields line) 10 ''0x0''"
    and "he_phy_capa n = text_field (cleaned_fields line) 11 ''''"
    and "encryption n = text_field (cleaned_fields line) 12 ''''"
    and "cipher n = text_field (cleaned_fields line) 13 ''''"
    and "suite n = text_field (cleaned_fields line) 14 ''''"
proof -
  obtain fv bv sv cv where
    f: "float_field (cleaned_fields line) 2 = Inr fv" and
    b: "int_field (cleaned_fields line) 3 = Inr bv" and
    s: "float_field (cleaned_fields line) 5 = Inr sv" and
    c: "int_field (cleaned_fields line) 8 = Inr cv"
    using assms unfolding parse_wifi_line_def Let_def
    by (auto split: sum.splits)
  have n: "n = \<lparr> bss = text_field (cleaned_fields line) 0 '''',
               tsf = text_field (cleaned_fields line) 1 '''',
               freq = fv,
               beacon = bv,
               capa = text_field (cleaned_fields line) 4 ''0x0'',
               signal = sv,
               ssid = text_field (cleaned_fields line) 6 '''',
               ht_capa = text_field (cleaned_fields line) 7 ''0x0'',
               primary_channel = cv,
               vht_capa = text_field (cleaned_fields line) 9 ''0x0'',
               he_capa = text_field (cleaned_fields line) 10 ''0x0'',
               he_phy_capa = text_field (cleaned_fields line) 11 '''',
               encryption = text_field (cleaned_fields line) 12 '''',
               cipher = text_field (cleaned_fields line) 13 '''',
               suite = text_field (cleaned_fields line) 14 '''' \<rparr>"
    using assms unfolding parse_wifi_line_def Let_def f b s c
    by simp
  show "bss n = text_field (cleaned_fields line) 0 ''''" by (simp add: n)
  show "tsf n = text_field (cleaned_fields line) 1 ''''" by (simp add: n)
  show "float_field (cleaned_fields line) 2 = Inr (freq n)" by (simp add: n f)
  show "int_field (cleaned_fields line) 3 = Inr (beacon n)" by (simp add: n b)
  show "capa n = text_field (cleaned_fields line) 4 ''0x0''" by (simp add: n)
  show "float_field (cleaned_fields line) 5 = Inr (signal n)" by (simp add: n s)
  show "ssid n = text_field (cleaned_fields line) 6 ''''" by (simp add: n)
  show "ht_capa n = text_field (cleaned_fields line) 7 ''0x0''" by (simp add: n)
  show "int_field (cleaned_fields line) 8 = Inr (primary_channel n)" by (simp add: n c)
  show "vht_capa n = text_field (cleaned_fields line) 9 ''0x0''" by (simp add: n)
  show "he_capa n = text_field (cleaned_fields line) 10 ''0x0''" by (simp add: n)
  show "he_phy_capa n = text_field (cleaned_fields line) 11 ''''" by (simp add: n)
  show "encryption n = text_field (cleaned_fields line) 12 ''''" by (simp add: n)
  show "cipher n = text_field (cleaned_fields line) 13 ''''" by (simp add: n)
  show "suite n = text_field (cleaned_fields line) 14 ''''" by (simp add: n)
qed

text \<open>The call returns exactly when none of the four conversions raises.\<close>

lemma parse_wifi_line_returns_iff:
  "(\<exists>n. parse_wifi_line line = Inr n) \<longleftrightarrow>
     \<not> isl (float_field (cleaned_fields line) 2) \<and> \<not> isl (int_field (cleaned_fields line) 3) \<and>
     \<not> isl (float_field (cleaned_fields line) 5) \<and> \<not> isl (int_field (cleaned_fields line) 8)"
  unfolding parse_wifi_line_def Let_def
  by (auto split: sum.splits)

section \<open>Field defaults\<close>

lemmas token_eval = plain_def comma_def dquote_def

lemmas clean_eval = cleaned_fields_def clean_field_def strip_char_def strip_def isspace_def dquote_def

lemmas number_eval = py_float_def py_int_def strip_def isspace_def parse_decimal_def
  parse_exponent_def isdigit_def scaled_def decimal_def digit_value_def to_lower_def

lemmas json_eval = json_dumps_def newline_indent_def item_separator_def encode_basestring_ascii_def
  escape_char_def backslash_def dquote_def unicode_escape_def hex_digit_def newline_def

text \<open>
  C1, as the code has it. \<open>_parse_wifi_line\<close> does not return on every line: it raises
  \<open>ValueError\<close> when a numeric position holds a non-empty text that \<open>float()\<close> or
  \<open>int()\<close> rejects, and it returns in every other case. Whenever it returns, the
  record has the fifteen attributes (they are the fields of the record type), each
  text attribute is the cleaned token at its position when that position exists and its
  default otherwise (the empty string; \<open>0x0\<close> for capa, ht_capa, vht_capa, he_capa), and
  each numeric attribute whose position is absent is its default (0.0 for freq and
  signal, 0 for beacon and primary_channel).
\<close>

theorem parse_wifi_line_defaults:
  "((\<exists>n. parse_wifi_line line = Inr n) \<longleftrightarrow>
      (\<forall>i\<in>{2, 5}. i < length (cleaned_fields line) \<and> cleaned_fields line ! i \<noteq> []
          \<longrightarrow> \<not> isl (py_float (cleaned_fields line ! i))) \<and>
      (\<forall>i\<in>{3, 8}. i < length (cleaned_fields line) \<and> cleaned_fields line ! i \<noteq> []
          \<longrightarrow> \<not> isl (py_int (cleaned_fields line ! i)))) \<and>
   (\<forall>n. parse_wifi_line line = Inr n \<longrightarrow>
      bss n = (if 0 < length (cleaned_fields line) then cleaned_fields line ! 0 else '''') \<and>
      tsf n = (if 1 < length (cleaned_fields line) then cleaned_fields line ! 1 else '''') \<and>
      (length (cleaned_fields line) \<le> 2 \<longrightarrow> freq n = Finite 0) \<and>
      (length (cleaned_fields line) \<le> 3 \<longrightarrow> beacon n = 0) \<and>
      capa n = (if 4 < length (cleaned_fields line) then cleaned_fields line ! 4 else ''0x0'') \<and>
      (length (cleaned_fields line) \<le> 5 \<longrightarrow> signal n = Finite 0) \<and>
      ssid n = (if 6 < length (cleaned_fields line) then cleaned_fields line ! 6 else '''') \<and>
      ht_capa n = (if 7 < length (cleaned_fields line) then cleaned_fields line ! 7 else ''0x0'') \<and>
      (length (cleaned_fields line) \<le> 8 \<longrightarrow> primary_channel n = 0) \<and>
      vht_capa n = (if 9 < length (cleaned_fields line) then cleaned_fields line ! 9 else ''0x0'') \<and>
      he_capa n = (if 10 < length (cleaned_fields line) then cleaned_fields line ! 10 else ''0x0'') \<and>
      he_phy_capa n = (if 11 < length (cleaned_fields line) then cleaned_fields line ! 11 else '''') \<and>
      encryption n = (if 12 < length (cleaned_fields line) then cleaned_fields line ! 12 else '''') \<and>
      cipher n = (if 13 < length (cleaned_fields line) then cleaned_fields line ! 13 else '''') \<and>
      suite n = (if 14 < length (cleaned_fields line) then cleaned_fields line ! 14 else ''''))"
proof -
  have returns: "(\<exists>n. parse_wifi_line line = Inr n) \<longleftrightarrow>
      (\<forall>i\<in>{2, 5}. i < length (cleaned_fields line) \<and> cleaned_fields line ! i \<noteq> []
          \<longrightarrow> \<not> isl (py_float (cleaned_fields line ! i))) \<and>
      (\<forall>i\<in>{3, 8}. i < length (cleaned_fields line) \<and> cleaned_fields line ! i \<noteq> []
          \<longrightarrow> \<not> isl (py_int (cleaned_fields line ! i)))"
    by (simp add: parse_wifi_line_returns_iff float_field_def int_field_def) blast
  have fields:
     "bss n = (if 0 < length (cleaned_fields line) then cleaned_fields line ! 0 else '''') \<and>
      tsf n = (if 1 < length (cleaned_fields line) then cleaned_fields line ! 1 else '''') \<and>
      (length (cleaned_fields line) \<le> 2 \<longrightarrow> freq n = Finite 0) \<and>
      (length (cleaned_fields line) \<le> 3 \<longrightarrow> beacon n = 0) \<and>
      capa n = (if 4 < length (cleaned_fields line) then cleaned_fields line ! 4 else ''0x0'') \<and>
      (length (cleaned_fields line) \<le> 5 \<longrightarrow> signal n = Finite 0) \<and>
      ssid n = (if 6 < length (cleaned_fields line) then cleaned_fields line ! 6 else '''') \<and>
      ht_capa n = (if 7 < length (cleaned_fields line) then cleaned_fields line ! 7 else ''0x0'') \<and>
      (length (cleaned_fields line) \<le> 8 \<longrightarrow> primary_channel n = 0) \<and>
      vht_capa n = (if 9 < length (cleaned_fields line) then cleaned_fields line ! 9 else ''0x0'') \<and>
      he_capa n = (if 10 < length (cleaned_fields line) then cleaned_fields line ! 10 else ''0x0'') \<and>
      he_phy_capa n = (if 11 < length (cleaned_fields line) then cleaned_fields line ! 11 else '''') \<and>
      encryption n = (if 12 < length (cleaned_fields line) then cleaned_fields line ! 12 else '''') \<and>
      cipher n = (if 13 < length (cleaned_fields line) then cleaned_fields line ! 13 else '''') \<and>
      suite n = (if 14 < length (cleaned_fields line) then cleaned_fields line ! 14 else '''')"
    if r: "parse_wifi_line line = Inr n" for n
  proof -
    note f = parse_wifi_line_fields[OF r]
    have "length (cleaned_fields line) \<le> 2 \<longrightarrow> freq n = Finite 0"
      using f(3) by (simp add: float_field_def split: if_splits)
    moreover have "length (cleaned_fields line) \<le> 3 \<longrightarrow> beacon n = 0"
      using f(4) by (simp add: int_field_def split: if_splits)
    moreover have "length (cleaned_fields line) \<le> 5 \<longrightarrow> signal n = Finite 0"
      using f(6) by (simp add: float_field_def split: if_splits)
    moreover have "length (cleaned_fields line) \<le> 8 \<longrightarrow> primary_channel n = 0"
      using f(9) by (simp add: int_field_def split: if_splits)
    ultimately show ?thesis
      unfolding f(1,2,5,7,8,10-15) text_field_def by simp
  qed
  show ?thesis
    using returns fields by blast
qed

theorem parse_wifi_line_defaults_witness:
  "parse_wifi_line ''aa,7'' =
     Inr \<lparr> bss = ''aa'', tsf = ''7'', freq = Finite 0, beacon = 0, capa = ''0x0'',
           signal = Finite 0, ssid = '''', ht_capa = ''0x0'', primary_channel = 0,
           vht_capa = ''0x0'', he_capa = ''0x0'', he_phy_capa = '''', encryption = '''',
           cipher = '''', suite = '''' \<rparr>"
proof -
  have t: "findall_fields ''aa,7'' = [''aa'', ''7'']"
    by (simp add: token_eval)
  have c: "cleaned_fields ''aa,7'' = [''aa'', ''7'']"
    unfolding cleaned_fields_def t by (simp add: clean_eval)
  note d = parse_wifi_line_defaults [of "''aa,7''", unfolded c]
  from d obtain n where n: "parse_wifi_line ''aa,7'' = Inr n"
    by auto
  with d have "bss n = ''aa''" "tsf n = ''7''" "freq n = Finite 0" "beacon n = 0"
    "capa n = ''0x0''" "signal n = Finite 0" "ssid n = ''''" "ht_capa n = ''0x0''"
    "primary_channel n = 0" "vht_capa n = ''0x0''" "he_capa n = ''0x0''"
    "he_phy_capa n = ''''" "encryption n = ''''" "cipher n = ''''" "suite n = ''''"
    by simp_all
  then have "n = \<lparr> bss = ''aa'', tsf = ''7'', freq = Finite 0, beacon = 0, capa = ''0x0'',
           signal = Finite 0, ssid = '''', ht_capa = ''0x0'', primary_channel = 0,
           vht_capa = ''0x0'', he_capa = ''0x0'', he_phy_capa = '''', encryption = '''',
           cipher = '''', suite = '''' \<rparr>"
    by simp
  with n show ?thesis
    by simp
qed

text \<open>
  The line \<open>a,b,c\<close> has a third token that \<open>float()\<close> rejects: the call raises and no
  record is returned.
\<close>

theorem parse_wifi_line_raises_example:
  "parse_wifi_line ''a,b,c'' = Inl (ValueError_float ''c'')"
proof -
  have t: "findall_fields ''a,b,c'' = [''a'', ''b'', ''c'']"
    by (simp add: token_eval)
  have c: "cleaned_fields ''a,b,c'' = [''a'', ''b'', ''c'']"
    unfolding cleaned_fields_def t by (simp add: clean_eval)
  have f: "py_float ''c'' = Inl (ValueError_float ''c'')"
    by (simp add: number_eval)
  show ?thesis
    unfolding parse_wifi_line_def c by (simp add: float_field_def f)
qed

text \<open>
  C2. The line \<open>aa:bb:cc:dd:ee:ff,123456\<close> has two tokens; the record holds them as bss
  and tsf and the default at every other attribute.
\<close>

theorem parse_two_field_line:
  "parse_wifi_line ''aa:bb:cc:dd:ee:ff,123456'' =
     Inr \<lparr> bss = ''aa:bb:cc:dd:ee:ff'', tsf = ''123456'', freq = Finite 0, beacon = 0,
           capa = ''0x0'', signal = Finite 0, ssid = '''', ht_capa = ''0x0'',
           primary_channel = 0, vht_capa = ''0x0'', he_capa = ''0x0'', he_phy_capa = '''',
           encryption = '''', cipher = '''', suite = '''' \<rparr>"
proof -
  have t: "findall_fields ''aa:bb:cc:dd:ee:ff,123456'' = [''aa:bb:cc:dd:ee:ff'', ''123456'']"
    by (simp add: token_eval)
  have c: "cleaned_fields ''aa:bb:cc:dd:ee:ff,123456'' = [''aa:bb:cc:dd:ee:ff'', ''123456'']"
    unfolding cleaned_fields_def t by (simp add: clean_eval)
  show ?thesis
    unfolding parse_wifi_line_def c
    by (simp add: float_field_def int_field_def text_field_def)
qed

section \<open>Quoted spans, empty tokens and separators\<close>

text \<open>No cleaned field contains a double quote.\<close>

lemma clean_field_no_dquote:
  assumes "t \<in> set (findall_fields line)"
  shows "dquote \<notin> set (clean_field t)"
proof -
  from findall_fields_shape[OF assms]
  consider (run) "\<forall>c\<in>set t. plain c"
    | (span) q where "t = dquote # q @ [dquote]" "dquote \<notin> set q"
    by blast
  then show ?thesis
  proof cases
    case run
    then have "dquote \<notin> set t"
      by (auto simp: plain_def)
    then show ?thesis
      using set_strip[of t] by (auto simp: clean_field_def strip_char_absent)
  next
    case span
    then show ?thesis
      using set_strip[of q] by (auto simp: clean_field_def strip_char_quoted)
  qed
qed

lemma cleaned_fields_no_dquote: "f \<in> set (cleaned_fields line) \<Longrightarrow> dquote \<notin> set f"
  by (auto simp: cleaned_fields_def clean_field_no_dquote)

lemma text_field_no_dquote:
  "dquote \<notin> set d \<Longrightarrow> dquote \<notin> set (text_field (cleaned_fields line) i d)"
  using cleaned_fields_no_dquote[of "cleaned_fields line ! i" line]
  by (auto simp: text_field_def)

text \<open>A token that contains a double quote is not blank.\<close>

lemma quoted_token_not_blank: "dquote \<in> set t \<Longrightarrow> strip t \<noteq> []"
proof -
  assume "dquote \<in> set t"
  moreover have "\<not> isspace dquote"
    by (simp add: isspace_def dquote_def)
  ultimately show ?thesis
    by (auto simp: strip_Nil_iff)
qed

text \<open>
  C3. A span between two double quotes is one token, commas inside included, after any
  prefix without double quotes; cleaning it gives the text between the quotes, stripped
  of surrounding whitespace. On the line of the claim the seventh token is such a span:
  ssid is \<open>My, Home Network\<close> and primary_channel is 6.
\<close>

theorem quoted_span_one_token:
  \<open>(\<forall>a q r. dquote \<notin> set a \<and> dquote \<notin> set q \<longrightarrow>
      findall_fields (a @ dquote # q @ dquote # r) =
        findall_fields a @ (dquote # q @ [dquote]) # findall_fields r \<and>
      clean_field (dquote # q @ [dquote]) = strip q) \<and>
   parse_wifi_line ''aa:bb,ts,2412,100,0x0,-50,"My, Home Network",0x0,6'' =
     Inr \<lparr> bss = ''aa:bb'', tsf = ''ts'', freq = Finite 2412, beacon = 100, capa = ''0x0'',
           signal = Finite (- 50), ssid = ''My, Home Network'', ht_capa = ''0x0'',
           primary_channel = 6, vht_capa = ''0x0'', he_capa = ''0x0'', he_phy_capa = '''',
           encryption = '''', cipher = '''', suite = '''' \<rparr>\<close>
proof -
  have span: "findall_fields (a @ dquote # q @ dquote # r) =
        findall_fields a @ (dquote # q @ [dquote]) # findall_fields r \<and>
      clean_field (dquote # q @ [dquote]) = strip q"
    if "dquote \<notin> set a \<and> dquote \<notin> set q" for a q r
  proof -
    have "\<not> plain dquote"
      by (simp add: plain_def)
    with that have "findall_fields (a @ dquote # q @ dquote # r) =
        findall_fields a @ findall_fields (dquote # q @ dquote # r)"
      by (simp add: findall_fields_append del: findall_fields.simps)
    then show ?thesis
      using that
      by (simp add: findall_fields_quoted clean_field_def strip_char_quoted
            del: findall_fields.simps)
  qed
  have t: \<open>findall_fields ''aa:bb,ts,2412,100,0x0,-50,"My, Home Network",0x0,6'' =
      [''aa:bb'', ''ts'', ''2412'', ''100'', ''0x0'', ''-50'', ''"My, Home Network"'',
       ''0x0'', ''6'']\<close>
    by (simp add: token_eval)
  have c: \<open>cleaned_fields ''aa:bb,ts,2412,100,0x0,-50,"My, Home Network",0x0,6'' =
      [''aa:bb'', ''ts'', ''2412'', ''100'', ''0x0'', ''-50'', ''My, Home Network'',
       ''0x0'', ''6'']\<close>
    unfolding cleaned_fields_def t by (simp add: clean_eval)
  have f: "py_float ''2412'' = Inr (Finite 2412)" "py_float ''-50'' = Inr (Finite (- 50))"
    by (simp_all add: number_eval)
  have i: "py_int ''100'' = Inr 100" "py_int ''6'' = Inr 6"
    by (simp_all add: number_eval)
  have line: \<open>parse_wifi_line ''aa:bb,ts,2412,100,0x0,-50,"My, Home Network",0x0,6'' =
     Inr \<lparr> bss = ''aa:bb'', tsf = ''ts'', freq = Finite 2412, beacon = 100, capa = ''0x0'',
           signal = Finite (- 50), ssid = ''My, Home Network'', ht_capa = ''0x0'',
           primary_channel = 6, vht_capa = ''0x0'', he_capa = ''0x0'', he_phy_capa = '''',
           encryption = '''', cipher = '''', suite = '''' \<rparr>\<close>
    unfolding parse_wifi_line_def c
    by (simp add: float_field_def int_field_def text_field_def f i)
  show ?thesis
    using span line by blast
qed

theorem quoted_span_one_token_witness:
  \<open>findall_fields ''x,"1,2",y'' = [''x'', ''"1,2"'', ''y''] \<and> clean_field ''"1,2"'' = ''1,2''\<close>
proof -
  have h: "dquote \<notin> set ''x,'' \<and> dquote \<notin> set ''1,2''"
    by (simp add: dquote_def)
  have s: "strip ''1,2'' = ''1,2''"
    by (simp add: strip_def isspace_def)
  have "findall_fields ''x,'' = [''x'']" "findall_fields '',y'' = [''y'']"
    by (simp_all add: token_eval)
  with quoted_span_one_token [THEN conjunct1, rule_format, OF h, of "'',y''"] s
  show ?thesis
    by (simp add: dquote_def)
qed

text \<open>
  C5, as the code has it. The condition of the comprehension is \<open>field.strip()\<close>, on the
  token as matched: a token is dropped exactly when it consists of whitespace only, and
  such a token is never a quoted span. The cleaned sequence is the cleaned tokens that
  are not whitespace-only, in order, so each dropped token moves the later ones down by
  one position. A quoted span is never dropped: its field is the stripped text between
  the quotes, the empty string when that text is empty or whitespace, and it keeps its
  position.
\<close>

theorem cleaning_drops_blank_unquoted_tokens:
  "cleaned_fields line =
     map clean_field (filter (\<lambda>t. \<not> (\<forall>c\<in>set t. isspace c)) (findall_fields line)) \<and>
   (\<forall>t\<in>set (findall_fields line). dquote \<in> set t \<longrightarrow> strip t \<noteq> []) \<and>
   (\<forall>q. dquote \<notin> set q \<longrightarrow>
      clean_field (dquote # q @ [dquote]) = strip q \<and>
      (clean_field (dquote # q @ [dquote]) = [] \<longleftrightarrow> (\<forall>c\<in>set q. isspace c)))"
proof -
  have "cleaned_fields line =
     map clean_field (filter (\<lambda>t. \<not> (\<forall>c\<in>set t. isspace c)) (findall_fields line))"
    by (simp add: cleaned_fields_def strip_Nil_iff)
  moreover have "\<forall>t\<in>set (findall_fields line). dquote \<in> set t \<longrightarrow> strip t \<noteq> []"
    by (simp add: quoted_token_not_blank)
  moreover have "\<forall>q. dquote \<notin> set q \<longrightarrow>
      clean_field (dquote # q @ [dquote]) = strip q \<and>
      (clean_field (dquote # q @ [dquote]) = [] \<longleftrightarrow> (\<forall>c\<in>set q. isspace c))"
    by (simp add: clean_field_def strip_char_quoted strip_Nil_iff)
  ultimately show ?thesis
    by blast
qed

theorem cleaning_drops_blank_unquoted_tokens_witness:
  \<open>cleaned_fields ''a, ,"",b'' = [''a'', '''', ''b'']\<close>
proof -
  have t: \<open>findall_fields ''a, ,"",b'' = [''a'', '' '', ''""'', ''b'']\<close>
    by (simp add: token_eval)
  show ?thesis
    using cleaning_drops_blank_unquoted_tokens [of \<open>''a, ,"",b''\<close>, THEN conjunct1]
    unfolding t by (simp add: clean_eval)
qed

text \<open>
  On the line \<open>a,"",2412\<close> the empty quoted field is kept: it is the second field, the
  empty string, and \<open>2412\<close> stays third, so it is freq and not tsf.
\<close>

theorem empty_quoted_field_keeps_slot:
  \<open>cleaned_fields ''a,"",2412'' = [''a'', '''', ''2412''] \<and>
   parse_wifi_line ''a,"",2412'' =
     Inr \<lparr> bss = ''a'', tsf = '''', freq = Finite 2412, beacon = 0, capa = ''0x0'',
           signal = Finite 0, ssid = '''', ht_capa = ''0x0'', primary_channel = 0,
           vht_capa = ''0x0'', he_capa = ''0x0'', he_phy_capa = '''', encryption = '''',
           cipher = '''', suite = '''' \<rparr>\<close>
proof -
  have t: \<open>findall_fields ''a,"",2412'' = [''a'', ''""'', ''2412'']\<close>
    by (simp add: token_eval)
  have c: \<open>cleaned_fields ''a,"",2412'' = [''a'', '''', ''2412'']\<close>
    unfolding cleaned_fields_def t by (simp add: clean_eval)
  have f: "py_float ''2412'' = Inr (Finite 2412)"
    by (simp add: number_eval)
  have \<open>parse_wifi_line ''a,"",2412'' =
     Inr \<lparr> bss = ''a'', tsf = '''', freq = Finite 2412, beacon = 0, capa = ''0x0'',
           signal = Finite 0, ssid = '''', ht_capa = ''0x0'', primary_channel = 0,
           vht_capa = ''0x0'', he_capa = ''0x0'', he_phy_capa = '''', encryption = '''',
           cipher = '''', suite = '''' \<rparr>\<close>
    unfolding parse_wifi_line_def c
    by (simp add: float_field_def int_field_def text_field_def f)
  with c show ?thesis
    by simp
qed

text \<open>
  C9. Two consecutive commas are tokenized like one: after a text \<open>a\<close> without double
  quotes, the lines \<open>a,,b\<close> and \<open>a,b\<close> have the same tokens, the same cleaned fields and
  the same outcome of \<open>_parse_wifi_line\<close>, for every \<open>b\<close>. This covers the \<open>a\<close> and \<open>b\<close>
  of the claim, which contain no comma and no double quote and are not blank.
\<close>

theorem consecutive_commas_collapse:
  assumes "dquote \<notin> set a"
  shows "findall_fields (a @ '',,'' @ b) = findall_fields (a @ '','' @ b) \<and>
         cleaned_fields (a @ '',,'' @ b) = cleaned_fields (a @ '','' @ b) \<and>
         parse_wifi_line (a @ '',,'' @ b) = parse_wifi_line (a @ '','' @ b)"
proof -
  have c: "\<not> plain comma"
    by (simp add: plain_def)
  have "findall_fields (a @ comma # comma # b) =
      findall_fields a @ findall_fields (comma # comma # b)"
    using assms c by (rule findall_fields_append)
  moreover have "findall_fields (a @ comma # b) = findall_fields a @ findall_fields (comma # b)"
    using assms c by (rule findall_fields_append)
  ultimately have "findall_fields (a @ comma # comma # b) = findall_fields (a @ comma # b)"
    by (simp only: findall_fields_comma)
  then have t: "findall_fields (a @ '',,'' @ b) = findall_fields (a @ '','' @ b)"
    by (simp add: comma_def)
  then have "cleaned_fields (a @ '',,'' @ b) = cleaned_fields (a @ '','' @ b)"
    by (simp only: cleaned_fields_def)
  then have "parse_wifi_line (a @ '',,'' @ b) = parse_wifi_line (a @ '','' @ b)"
    by (simp only: parse_wifi_line_def)
  with t \<open>cleaned_fields (a @ '',,'' @ b) = cleaned_fields (a @ '','' @ b)\<close> show ?thesis
    by blast
qed

theorem consecutive_commas_collapse_witness:
  "parse_wifi_line ''aa:bb,,2412'' = parse_wifi_line ''aa:bb,2412'' \<and>
   cleaned_fields ''aa:bb,,2412'' = [''aa:bb'', ''2412'']"
proof -
  have h: "dquote \<notin> set ''aa:bb''"
    by (simp add: dquote_def)
  have t: "findall_fields ''aa:bb,2412'' = [''aa:bb'', ''2412'']"
    by (simp add: token_eval)
  have c: "cleaned_fields ''aa:bb,2412'' = [''aa:bb'', ''2412'']"
    unfolding cleaned_fields_def t by (simp add: clean_eval)
  show ?thesis
    using consecutive_commas_collapse [OF h, of "''2412''"] c by simp
qed

text \<open>
  C10. No text attribute of a returned record contains a double quote. A double quote
  with no later double quote on the line is skipped: between two texts without double
  quotes it separates the tokens exactly as a comma does.
\<close>

theorem no_dquote_in_record:
  "(\<forall>n. parse_wifi_line line = Inr n \<longrightarrow>
      dquote \<notin> set (bss n) \<and> dquote \<notin> set (tsf n) \<and> dquote \<notin> set (capa n) \<and>
      dquote \<notin> set (ssid n) \<and> dquote \<notin> set (ht_capa n) \<and> dquote \<notin> set (vht_capa n) \<and>
      dquote \<notin> set (he_capa n) \<and> dquote \<notin> set (he_phy_capa n) \<and>
      dquote \<notin> set (encryption n) \<and> dquote \<notin> set (cipher n) \<and> dquote \<notin> set (suite n)) \<and>
   (\<forall>a b. dquote \<notin> set a \<and> dquote \<notin> set b \<longrightarrow>
      findall_fields (a @ dquote # b) = findall_fields a @ findall_fields b \<and>
      findall_fields (a @ dquote # b) = findall_fields (a @ comma # b))"
proof -
  have e: "dquote \<notin> set ''''" and x: "dquote \<notin> set ''0x0''"
    by (simp_all add: dquote_def)
  have rec: "dquote \<notin> set (bss n) \<and> dquote \<notin> set (tsf n) \<and> dquote \<notin> set (capa n) \<and>
      dquote \<notin> set (ssid n) \<and> dquote \<notin> set (ht_capa n) \<and> dquote \<notin> set (vht_capa n) \<and>
      dquote \<notin> set (he_capa n) \<and> dquote \<notin> set (he_phy_capa n) \<and>
      dquote \<notin> set (encryption n) \<and> dquote \<notin> set (cipher n) \<and> dquote \<notin> set (suite n)"
    if r: "parse_wifi_line line = Inr n" for n
    unfolding parse_wifi_line_fields(1,2,5,7,8,10-15)[OF r]
    using text_field_no_dquote[OF e, of line] text_field_no_dquote[OF x, of line]
    by blast
  have sep: "findall_fields (a @ dquote # b) = findall_fields a @ findall_fields b \<and>
      findall_fields (a @ dquote # b) = findall_fields (a @ comma # b)"
    if h: "dquote \<notin> set a \<and> dquote \<notin> set b" for a b
  proof -
    have "\<not> plain dquote" "\<not> plain comma"
      by (simp_all add: plain_def)
    with h have "findall_fields (a @ dquote # b) = findall_fields a @ findall_fields (dquote # b)"
      and "findall_fields (a @ comma # b) = findall_fields a @ findall_fields (comma # b)"
      by (simp_all add: findall_fields_append del: findall_fields.simps)
    with h show ?thesis
      by (simp add: findall_fields_open_quote findall_fields_comma del: findall_fields.simps)
  qed
  show ?thesis
    using rec sep by blast
qed

theorem no_dquote_in_record_witness:
  \<open>findall_fields ''ab"cd'' = [''ab'', ''cd''] \<and>
   (\<exists>n. parse_wifi_line ''ab"cd'' = Inr n \<and> dquote \<notin> set (bss n) \<and> dquote \<notin> set (tsf n))\<close>
proof -
  have h: "dquote \<notin> set ''ab'' \<and> dquote \<notin> set ''cd''"
    by (simp add: dquote_def)
  have "findall_fields ''ab'' = [''ab'']" "findall_fields ''cd'' = [''cd'']"
    by (simp_all add: token_eval)
  with no_dquote_in_record [of "[]", THEN conjunct2, rule_format, OF h]
  have t: \<open>findall_fields ''ab"cd'' = [''ab'', ''cd'']\<close>
    by (simp add: dquote_def)
  have c: \<open>cleaned_fields ''ab"cd'' = [''ab'', ''cd'']\<close>
    unfolding cleaned_fields_def t by (simp add: clean_eval)
  have \<open>\<exists>n. parse_wifi_line ''ab"cd'' = Inr n\<close>
    unfolding parse_wifi_line_def c
    by (simp add: float_field_def int_field_def text_field_def)
  then obtain n where n: \<open>parse_wifi_line ''ab"cd'' = Inr n\<close>
    by blast
  with no_dquote_in_record [of \<open>''ab"cd''\<close>, THEN conjunct1, rule_format, OF n] t
  show ?thesis
    by blast
qed

section \<open>One record per non-blank line\<close>

text \<open>
  The loop returns the accumulator followed by the records of the non-blank lines, in
  order; it returns when every non-blank line parses and raises as soon as one does not.
\<close>

lemma parse_lines_Inr:
  "parse_lines acc ls = Inr rs \<Longrightarrow>
     \<exists>rs'. rs = acc @ rs' \<and>
       map Inr rs' = map parse_wifi_line (filter (\<lambda>l. strip l \<noteq> []) ls)"
proof (induction ls arbitrary: acc)
  case Nil
  then show ?case by simp
next
  case (Cons l ls)
  show ?case
  proof (cases "strip l = []")
    case True
    with Cons show ?thesis by simp
  next
    case False
    with Cons.prems obtain n where n: "parse_wifi_line l = Inr n"
      and r: "parse_lines (acc @ [n]) ls = Inr rs"
      by (auto split: sum.splits)
    from Cons.IH[OF r] obtain rs' where "rs = (acc @ [n]) @ rs'"
      and "map Inr rs' = map parse_wifi_line (filter (\<lambda>l. strip l \<noteq> []) ls)"
      by blast
    then have "rs = acc @ (n # rs') \<and>
        map Inr (n # rs') = map parse_wifi_line (filter (\<lambda>l. strip l \<noteq> []) (l # ls))"
      using False n by simp
    then show ?thesis by blast
  qed
qed

lemma parse_lines_returns:
  "(\<forall>l\<in>set ls. strip l \<noteq> [] \<longrightarrow> \<not> isl (parse_wifi_line l)) \<Longrightarrow>
     \<not> isl (parse_lines acc ls)"
proof (induction ls arbitrary: acc)
  case Nil
  then show ?case by simp
next
  case (Cons l ls)
  then show ?case by (auto split: sum.splits)
qed

lemma parse_lines_raises:
  "l \<in> set ls \<Longrightarrow> strip l \<noteq> [] \<Longrightarrow> isl (parse_wifi_line l) \<Longrightarrow>
     isl (parse_lines acc ls)"
proof (induction ls arbitrary: acc)
  case Nil
  then show ?case by simp
next
  case (Cons l' ls)
  then show ?case by (auto split: sum.splits)
qed

lemma parse_wifi_content_Inr:
  assumes "parse_wifi_content content = Inr rs"
  shows "map Inr rs =
     map parse_wifi_line (filter (\<lambda>l. strip l \<noteq> []) (split newline (strip content)))"
  using parse_lines_Inr[of "[]" "split newline (strip content)" rs] assms
  by (simp add: parse_wifi_content_def)

lemma parse_wifi_content_returns_iff:
  "(\<exists>rs. parse_wifi_content content = Inr rs) \<longleftrightarrow>
     (\<forall>l\<in>set (split newline (strip content)). strip l \<noteq> [] \<longrightarrow> \<not> isl (parse_wifi_line l))"
proof
  assume "\<exists>rs. parse_wifi_content content = Inr rs"
  then have "\<not> isl (parse_lines [] (split newline (strip content)))"
    by (auto simp: parse_wifi_content_def)
  then show "\<forall>l\<in>set (split newline (strip content)).
      strip l \<noteq> [] \<longrightarrow> \<not> isl (parse_wifi_line l)"
    using parse_lines_raises by blast
next
  assume "\<forall>l\<in>set (split newline (strip content)).
      strip l \<noteq> [] \<longrightarrow> \<not> isl (parse_wifi_line l)"
  then have "\<not> isl (parse_lines [] (split newline (strip content)))"
    by (rule parse_lines_returns)
  then show "\<exists>rs. parse_wifi_content content = Inr rs"
    by (cases "parse_lines [] (split newline (strip content))")
       (simp_all add: parse_wifi_content_def)
qed

section \<open>Whitespace around the text and around a line\<close>

text \<open>
  \<open>content.strip()\<close> removes whitespace, line breaks included, at both ends of the
  text. That changes neither which lines are non-blank nor what \<open>_parse_wifi_line\<close>
  gives for them: whitespace at an end of a line is stripped from its token, or is a
  token of its own that is dropped.
\<close>

lemma takeWhile_append_stop: "\<exists>x\<in>set xs. \<not> P x \<Longrightarrow> takeWhile P (xs @ ys) = takeWhile P xs"
  by (blast intro: takeWhile_append1)

lemma dropWhile_append_stop:
  "\<exists>x\<in>set xs. \<not> P x \<Longrightarrow> dropWhile P (xs @ ys) = dropWhile P xs @ ys"
  by (blast intro: dropWhile_append1)

lemma space_plain: "isspace w \<Longrightarrow> plain w"
  by (auto simp: isspace_def plain_def comma_def dquote_def)

lemma strip_Cons_space: "isspace w \<Longrightarrow> strip (w # s) = strip s"
  by (simp add: strip_def)

lemma strip_snoc_space: "isspace w \<Longrightarrow> strip (s @ [w]) = strip s"
proof -
  assume w: "isspace w"
  show ?thesis
  proof (cases "\<forall>c\<in>set s. isspace c")
    case True
    then have "strip s = []" "strip (s @ [w]) = []"
      using w by (simp_all add: strip_Nil_iff)
    then show ?thesis by simp
  next
    case False
    then have "dropWhile isspace (s @ [w]) = dropWhile isspace s @ [w]"
      by (simp add: dropWhile_append_stop)
    then show ?thesis
      using w by (simp add: strip_def)
  qed
qed

lemma clean_field_plain: "\<forall>c\<in>set t. plain c \<Longrightarrow> clean_field t = strip t"
proof -
  assume "\<forall>c\<in>set t. plain c"
  then have "dquote \<notin> set t"
    by (auto simp: plain_def)
  then show ?thesis
    by (simp add: clean_field_def strip_char_absent)
qed

lemma cleaned_fields_Cons_space:
  assumes w: "isspace w"
  shows "cleaned_fields (w # l) = cleaned_fields l"
proof (cases l)
  case Nil
  have "strip [w] = []"
    using w by (simp add: strip_Nil_iff)
  then show ?thesis
    using Nil space_plain[OF w] by (simp add: cleaned_fields_def)
next
  case (Cons c cs)
  show ?thesis
  proof (cases "plain c")
    case True
    have p: "\<forall>x\<in>set (c # takeWhile plain cs). plain x"
      using True by (auto dest: set_takeWhileD)
    then have q: "\<forall>x\<in>set (w # c # takeWhile plain cs). plain x"
      using space_plain[OF w] by simp
    have "clean_field (w # c # takeWhile plain cs) = clean_field (c # takeWhile plain cs)"
      unfolding clean_field_plain[OF p] clean_field_plain[OF q]
      by (rule strip_Cons_space[OF w])
    then show ?thesis
      using Cons True space_plain[OF w]
      by (simp add: cleaned_fields_def strip_Cons_space[OF w])
  next
    case False
    have "strip [w] = []"
      using w by (simp add: strip_Nil_iff)
    then show ?thesis
      using Cons False space_plain[OF w] by (simp add: cleaned_fields_def)
  qed
qed

lemma cleaned_fields_snoc_space:
  assumes w: "isspace w"
  shows "cleaned_fields (l @ [w]) = cleaned_fields l"
proof (induction l rule: findall_fields.induct)
  case 1
  have "strip [w] = []"
    using w by (simp add: strip_Nil_iff)
  then show ?case
    using space_plain[OF w] by (simp add: cleaned_fields_def)
next
  case (2 c cs)
  have wq: "w \<noteq> dquote"
    using space_plain[OF w] by (simp add: plain_def)
  show ?case
  proof (cases "plain c")
    case True
    show ?thesis
    proof (cases "\<forall>x\<in>set cs. plain x")
      case all: True
      then have tk: "takeWhile plain (cs @ [w]) = cs @ [w]" "takeWhile plain cs = cs"
        and dr: "dropWhile plain (cs @ [w]) = []" "dropWhile plain cs = []"
        using space_plain[OF w] by simp_all
      have p: "\<forall>x\<in>set (c # cs). plain x"
        using True all by simp
      then have q: "\<forall>x\<in>set ((c # cs) @ [w]). plain x"
        using space_plain[OF w] by simp
      have "clean_field ((c # cs) @ [w]) = clean_field (c # cs)"
        unfolding clean_field_plain[OF p] clean_field_plain[OF q]
        by (rule strip_snoc_space[OF w])
      moreover have "strip ((c # cs) @ [w]) = strip (c # cs)"
        by (rule strip_snoc_space[OF w])
      ultimately show ?thesis
        using True by (simp add: cleaned_fields_def tk dr)
    next
      case some: False
      then have tk: "takeWhile plain (cs @ [w]) = takeWhile plain cs"
        and dr: "dropWhile plain (cs @ [w]) = dropWhile plain cs @ [w]"
        by (simp_all add: takeWhile_append_stop dropWhile_append_stop)
      have "cleaned_fields (dropWhile plain cs @ [w]) = cleaned_fields (dropWhile plain cs)"
        using "2.IH"(1) True by simp
      then show ?thesis
        using True by (simp add: cleaned_fields_def tk dr)
    qed
  next
    case False
    show ?thesis
    proof (cases "c = dquote \<and> dquote \<in> set cs")
      case True
      then have tk: "takeWhile (\<lambda>x. x \<noteq> dquote) (cs @ [w]) = takeWhile (\<lambda>x. x \<noteq> dquote) cs"
        and dr: "dropWhile (\<lambda>x. x \<noteq> dquote) (cs @ [w]) = dropWhile (\<lambda>x. x \<noteq> dquote) cs @ [w]"
        by (simp_all add: takeWhile_append_stop dropWhile_append_stop)
      have ne: "dropWhile (\<lambda>x. x \<noteq> dquote) cs \<noteq> []"
        using True by (simp add: dropWhile_Nil_iff)
      have "cleaned_fields (tl (dropWhile (\<lambda>x. x \<noteq> dquote) cs) @ [w]) =
          cleaned_fields (tl (dropWhile (\<lambda>x. x \<noteq> dquote) cs))"
        using "2.IH"(2) False True by simp
      then show ?thesis
        using False True ne by (simp add: cleaned_fields_def tk dr)
    next
      case skip: False
      have "cleaned_fields (cs @ [w]) = cleaned_fields cs"
        using "2.IH"(3) False skip by simp
      then show ?thesis
        using False skip wq by (auto simp add: cleaned_fields_def)
    qed
  qed
qed

lemma parse_wifi_line_Cons_space: "isspace w \<Longrightarrow> parse_wifi_line (w # l) = parse_wifi_line l"
  by (simp only: parse_wifi_line_def cleaned_fields_Cons_space)

lemma parse_wifi_line_snoc_space: "isspace w \<Longrightarrow> parse_wifi_line (l @ [w]) = parse_wifi_line l"
  by (simp only: parse_wifi_line_def cleaned_fields_snoc_space)

lemma split_not_Nil: "split sep s \<noteq> []"
  by (induction s) (auto split: list.splits)

lemma split_snoc:
  "split sep (s @ [c]) =
     (if c = sep then split sep s @ [[]]
      else butlast (split sep s) @ [last (split sep s) @ [c]])"
proof (induction s)
  case Nil
  then show ?case by simp
next
  case (Cons x xs)
  obtain l ls where l: "split sep xs = l # ls"
    using split_not_Nil[of sep xs] by (cases "split sep xs") auto
  show ?case
  proof (cases "c = sep")
    case True
    with Cons l show ?thesis by simp
  next
    case False
    with Cons l show ?thesis
      by (cases ls) (auto simp: split_not_Nil)
  qed
qed

lemma records_Cons_space:
  assumes w: "isspace w"
  shows "map parse_wifi_line (filter (\<lambda>l. strip l \<noteq> []) (split newline (w # s))) =
         map parse_wifi_line (filter (\<lambda>l. strip l \<noteq> []) (split newline s))"
proof (cases "w = newline")
  case True
  then show ?thesis
    by (simp add: strip_def)
next
  case False
  obtain l ls where l: "split newline s = l # ls"
    using split_not_Nil[of newline s] by (cases "split newline s") auto
  show ?thesis
    using False l by (simp add: strip_Cons_space[OF w] parse_wifi_line_Cons_space[OF w])
qed

lemma records_snoc_space:
  assumes w: "isspace w"
  shows "map parse_wifi_line (filter (\<lambda>l. strip l \<noteq> []) (split newline (s @ [w]))) =
         map parse_wifi_line (filter (\<lambda>l. strip l \<noteq> []) (split newline s))"
proof (cases "w = newline")
  case True
  then show ?thesis
    by (simp add: split_snoc strip_def)
next
  case False
  have "split newline s = butlast (split newline s) @ [last (split newline s)]"
    by (simp add: split_not_Nil)
  then have "map parse_wifi_line (filter (\<lambda>l. strip l \<noteq> []) (split newline s)) =
      map parse_wifi_line (filter (\<lambda>l. strip l \<noteq> [])
        (butlast (split newline s) @ [last (split newline s)]))"
    by simp
  then show ?thesis
    using False
    by (simp add: split_snoc strip_snoc_space[OF w] parse_wifi_line_snoc_space[OF w])
qed

lemma records_lstrip:
  "map parse_wifi_line (filter (\<lambda>l. strip l \<noteq> []) (split newline (dropWhile isspace s))) =
   map parse_wifi_line (filter (\<lambda>l. strip l \<noteq> []) (split newline s))"
proof (induction s)
  case Nil
  then show ?case by simp
next
  case (Cons c cs)
  show ?case
  proof (cases "isspace c")
    case True
    then show ?thesis
      using Cons records_Cons_space[OF True, of cs] by simp
  next
    case False
    then show ?thesis by simp
  qed
qed

lemma records_rstrip:
  "map parse_wifi_line (filter (\<lambda>l. strip l \<noteq> [])
     (split newline (rev (dropWhile isspace (rev s))))) =
   map parse_wifi_line (filter (\<lambda>l. strip l \<noteq> []) (split newline s))"
proof (induction s rule: rev_induct)
  case Nil
  then show ?case by simp
next
  case (snoc c cs)
  show ?case
  proof (cases "isspace c")
    case True
    then show ?thesis
      using snoc records_snoc_space[OF True, of cs] by simp
  next
    case False
    then show ?thesis by simp
  qed
qed

lemma records_strip:
  "map parse_wifi_line (filter (\<lambda>l. strip l \<noteq> []) (split newline (strip s))) =
   map parse_wifi_line (filter (\<lambda>l. strip l \<noteq> []) (split newline s))"
proof -
  have "strip s = rev (dropWhile isspace (rev (dropWhile isspace s)))"
    by (simp add: strip_def)
  then show ?thesis
    by (simp only: records_rstrip records_lstrip)
qed

text \<open>The same in terms of the lines of the text as given.\<close>

lemma parse_wifi_content_Inr_lines:
  assumes "parse_wifi_content content = Inr rs"
  shows "map Inr rs =
     map parse_wifi_line (filter (\<lambda>l. strip l \<noteq> []) (split newline content))"
  using parse_wifi_content_Inr[OF assms] by (simp only: records_strip)

lemma parse_wifi_content_returns_iff_lines:
  "(\<exists>rs. parse_wifi_content content = Inr rs) \<longleftrightarrow>
     (\<forall>l\<in>set (split newline content). strip l \<noteq> [] \<longrightarrow> \<not> isl (parse_wifi_line l))"
proof -
  have "(\<forall>l\<in>set (split newline (strip content)).
          strip l \<noteq> [] \<longrightarrow> \<not> isl (parse_wifi_line l)) \<longleftrightarrow>
        (\<forall>x\<in>set (map parse_wifi_line
            (filter (\<lambda>l. strip l \<noteq> []) (split newline (strip content)))). \<not> isl x)"
    by auto
  also have "\<dots> \<longleftrightarrow>
        (\<forall>x\<in>set (map parse_wifi_line
            (filter (\<lambda>l. strip l \<noteq> []) (split newline content))). \<not> isl x)"
    by (simp only: records_strip)
  also have "\<dots> \<longleftrightarrow>
        (\<forall>l\<in>set (split newline content). strip l \<noteq> [] \<longrightarrow> \<not> isl (parse_wifi_line l))"
    by auto
  finally show ?thesis
    by (simp only: parse_wifi_content_returns_iff)
qed

text \<open>
  C4, as the code has it. \<open>_parse_wifi_content\<close> does not return on every text: it
  returns exactly when \<open>_parse_wifi_line\<close> returns on every non-blank line of the text,
  and raises otherwise. Whenever it returns, the result is the records of the non-blank
  lines, one for each, in the order of the lines, so its length is the number of
  non-blank lines. A line is a piece of the text between line breaks, and it is blank
  when \<open>strip()\<close> leaves nothing of it.
\<close>

theorem parse_wifi_content_one_record_per_line:
  "((\<exists>rs. parse_wifi_content content = Inr rs) \<longleftrightarrow>
      (\<forall>l\<in>set (split newline content).
          strip l \<noteq> [] \<longrightarrow> \<not> isl (parse_wifi_line l))) \<and>
   (\<forall>rs. parse_wifi_content content = Inr rs \<longrightarrow>
      map Inr rs =
        map parse_wifi_line (filter (\<lambda>l. strip l \<noteq> []) (split newline content)) \<and>
      length rs = length (filter (\<lambda>l. strip l \<noteq> []) (split newline content)))"
proof -
  have "length rs = length (filter (\<lambda>l. strip l \<noteq> []) (split newline content))"
    if "parse_wifi_content content = Inr rs" for rs
  proof -
    have "length (map Inr rs :: (py_exception + wifi_network) list) =
        length (map parse_wifi_line
          (filter (\<lambda>l. strip l \<noteq> []) (split newline content)))"
      by (simp only: parse_wifi_content_Inr_lines[OF that])
    then show ?thesis
      by simp
  qed
  then show ?thesis
    using parse_wifi_content_returns_iff_lines[of content] parse_wifi_content_Inr_lines
    by blast
qed

theorem parse_wifi_content_one_record_per_line_witness:
  "parse_wifi_content '' \<newline>a,b\<newline>  \<newline>\<newline>c,d,1\<newline>'' =
     Inr [\<lparr> bss = ''a'', tsf = ''b'', freq = Finite 0, beacon = 0, capa = ''0x0'',
             signal = Finite 0, ssid = '''', ht_capa = ''0x0'', primary_channel = 0,
             vht_capa = ''0x0'', he_capa = ''0x0'', he_phy_capa = '''', encryption = '''',
             cipher = '''', suite = '''' \<rparr>,
          \<lparr> bss = ''c'', tsf = ''d'', freq = Finite 1, beacon = 0, capa = ''0x0'',
             signal = Finite 0, ssid = '''', ht_capa = ''0x0'', primary_channel = 0,
             vht_capa = ''0x0'', he_capa = ''0x0'', he_phy_capa = '''', encryption = '''',
             cipher = '''', suite = '''' \<rparr>]"
proof -
  have s: "split newline '' \<newline>a,b\<newline>  \<newline>\<newline>c,d,1\<newline>'' =
      ['' '', ''a,b'', ''  '', '''', ''c,d,1'', '''']"
    by (simp add: newline_def)
  have b: "strip ''a,b'' \<noteq> []" "strip ''  '' = []" "strip '''' = []" "strip ''c,d,1'' \<noteq> []"
    "strip '' '' = []"
    by (simp_all add: strip_def isspace_def)
  have t1: "findall_fields ''a,b'' = [''a'', ''b'']"
    by (simp add: token_eval)
  have c1: "cleaned_fields ''a,b'' = [''a'', ''b'']"
    unfolding cleaned_fields_def t1 by (simp add: clean_eval)
  have p1: "parse_wifi_line ''a,b'' =
      Inr \<lparr> bss = ''a'', tsf = ''b'', freq = Finite 0, beacon = 0, capa = ''0x0'',
            signal = Finite 0, ssid = '''', ht_capa = ''0x0'', primary_channel = 0,
            vht_capa = ''0x0'', he_capa = ''0x0'', he_phy_capa = '''', encryption = '''',
            cipher = '''', suite = '''' \<rparr>"
    unfolding parse_wifi_line_def c1
    by (simp add: float_field_def int_field_def text_field_def)
  have t2: "findall_fields ''c,d,1'' = [''c'', ''d'', ''1'']"
    by (simp add: token_eval)
  have c2: "cleaned_fields ''c,d,1'' = [''c'', ''d'', ''1'']"
    unfolding cleaned_fields_def t2 by (simp add: clean_eval)
  have f: "py_float ''1'' = Inr (Finite 1)"
    by (simp add: number_eval)
  have p2: "parse_wifi_line ''c,d,1'' =
      Inr \<lparr> bss = ''c'', tsf = ''d'', freq = Finite 1, beacon = 0, capa = ''0x0'',
            signal = Finite 0, ssid = '''', ht_capa = ''0x0'', primary_channel = 0,
            vht_capa = ''0x0'', he_capa = ''0x0'', he_phy_capa = '''', encryption = '''',
            cipher = '''', suite = '''' \<rparr>"
    unfolding parse_wifi_line_def c2
    by (simp add: float_field_def int_field_def text_field_def f)
  note d = parse_wifi_content_one_record_per_line
    [of "'' \<newline>a,b\<newline>  \<newline>\<newline>c,d,1\<newline>''", unfolded s]
  from d obtain rs
    where rs: "parse_wifi_content '' \<newline>a,b\<newline>  \<newline>\<newline>c,d,1\<newline>'' = Inr rs"
    using b p1 p2 by auto
  with d have "map Inr rs =
      map parse_wifi_line
        (filter (\<lambda>l. strip l \<noteq> []) ['' '', ''a,b'', ''  '', '''', ''c,d,1'', ''''])"
    by blast
  then have "rs =
      [\<lparr> bss = ''a'', tsf = ''b'', freq = Finite 0, beacon = 0, capa = ''0x0'',
          signal = Finite 0, ssid = '''', ht_capa = ''0x0'', primary_channel = 0,
          vht_capa = ''0x0'', he_capa = ''0x0'', he_phy_capa = '''', encryption = '''',
          cipher = '''', suite = '''' \<rparr>,
       \<lparr> bss = ''c'', tsf = ''d'', freq = Finite 1, beacon = 0, capa = ''0x0'',
          signal = Finite 0, ssid = '''', ht_capa = ''0x0'', primary_channel = 0,
          vht_capa = ''0x0'', he_capa = ''0x0'', he_phy_capa = '''', encryption = '''',
          cipher = '''', suite = '''' \<rparr>]"
    unfolding filter.simps b p1 p2 by (auto simp: b p1 p2)
  with rs show ?thesis
    by simp
qed

text \<open>
  The text with the lines \<open>a,b,1\<close> and \<open>c,d,x\<close> has two non-blank lines, and
  \<open>float()\<close> rejects \<open>x\<close>: the call raises and returns no record at all.
\<close>

theorem parse_wifi_content_raises_example:
  "parse_wifi_content ''a,b,1\<newline>c,d,x'' = Inl (ValueError_float ''x'')"
proof -
  have s: "split newline (strip ''a,b,1\<newline>c,d,x'') = [''a,b,1'', ''c,d,x'']"
    by (simp add: strip_def isspace_def newline_def)
  have b: "strip ''a,b,1'' \<noteq> []" "strip ''c,d,x'' \<noteq> []"
    by (simp_all add: strip_def isspace_def)
  have t1: "findall_fields ''a,b,1'' = [''a'', ''b'', ''1'']"
    by (simp add: token_eval)
  have c1: "cleaned_fields ''a,b,1'' = [''a'', ''b'', ''1'']"
    unfolding cleaned_fields_def t1 by (simp add: clean_eval)
  have f1: "py_float ''1'' = Inr (Finite 1)"
    by (simp add: number_eval)
  have p1: "\<exists>n. parse_wifi_line ''a,b,1'' = Inr n"
    unfolding parse_wifi_line_def c1
    by (simp add: float_field_def int_field_def text_field_def f1)
  have t2: "findall_fields ''c,d,x'' = [''c'', ''d'', ''x'']"
    by (simp add: token_eval)
  have c2: "cleaned_fields ''c,d,x'' = [''c'', ''d'', ''x'']"
    unfolding cleaned_fields_def t2 by (simp add: clean_eval)
  have f2: "py_float ''x'' = Inl (ValueError_float ''x'')"
    by (simp add: number_eval)
  have p2: "parse_wifi_line ''c,d,x'' = Inl (ValueError_float ''x'')"
    unfolding parse_wifi_line_def c2 by (simp add: float_field_def f2)
  from p1 obtain n where n: "parse_wifi_line ''a,b,1'' = Inr n"
    by blast
  show ?thesis
    unfolding parse_wifi_content_def s by (simp add: b n p2)
qed

section \<open>Numeric coercion and failure\<close>

declare nat_digits.simps [simp del]

lemma isl_iff_no_Inr: "isl x \<longleftrightarrow> (\<nexists>y. x = Inr y)"
  by (cases x) simp_all

text \<open>
  C6. In a returned record, a numeric position (2 freq, 3 beacon, 5 signal,
  8 primary_channel) that is present holds the default when its cleaned token is empty,
  and otherwise the value that \<open>float()\<close> or \<open>int()\<close> gives for the token. When the
  conversion of a present, non-empty token fails, \<open>_parse_wifi_line\<close> raises; when
  \<open>_parse_wifi_line\<close> raises on any non-blank line, \<open>_parse_wifi_content\<close> raises and
  returns no list; and when \<open>_parse_wifi_content\<close> raises, the handler answers
  \<open>GET /air\<close> with the 500 response.
\<close>

theorem numeric_coercion_all_or_nothing:
  "(\<forall>n. parse_wifi_line line = Inr n \<longrightarrow>
      (2 < length (cleaned_fields line) \<longrightarrow>
         (if cleaned_fields line ! 2 = [] then freq n = Finite 0
          else py_float (cleaned_fields line ! 2) = Inr (freq n))) \<and>
      (3 < length (cleaned_fields line) \<longrightarrow>
         (if cleaned_fields line ! 3 = [] then beacon n = 0
          else py_int (cleaned_fields line ! 3) = Inr (beacon n))) \<and>
      (5 < length (cleaned_fields line) \<longrightarrow>
         (if cleaned_fields line ! 5 = [] then signal n = Finite 0
          else py_float (cleaned_fields line ! 5) = Inr (signal n))) \<and>
      (8 < length (cleaned_fields line) \<longrightarrow>
         (if cleaned_fields line ! 8 = [] then primary_channel n = 0
          else py_int (cleaned_fields line ! 8) = Inr (primary_channel n)))) \<and>
   (\<forall>i. i < length (cleaned_fields line) \<and> cleaned_fields line ! i \<noteq> [] \<and>
        (i \<in> {2, 5} \<and> isl (py_float (cleaned_fields line ! i)) \<or>
         i \<in> {3, 8} \<and> isl (py_int (cleaned_fields line ! i)))
      \<longrightarrow> isl (parse_wifi_line line)) \<and>
   (\<forall>l\<in>set (split newline content).
      strip l \<noteq> [] \<and> isl (parse_wifi_line l) \<longrightarrow> isl (parse_wifi_content content)) \<and>
   (\<forall>e. parse_wifi_content content = Inl e \<longrightarrow>
      do_GET float_repr describe ''/air'' (Inr content) =
        [Send_response 500,
         Send_header ''Content-Type'' ''application/json; charset=utf-8'',
         End_headers,
         Wfile_write (encode_utf8 (json_dumps float_repr None
           (JObject [(''error'', JString (''Error procesando datos: '' @ describe e))])))])"
proof -
  have coerced:
     "(2 < length (cleaned_fields line) \<longrightarrow>
         (if cleaned_fields line ! 2 = [] then freq n = Finite 0
          else py_float (cleaned_fields line ! 2) = Inr (freq n))) \<and>
      (3 < length (cleaned_fields line) \<longrightarrow>
         (if cleaned_fields line ! 3 = [] then beacon n = 0
          else py_int (cleaned_fields line ! 3) = Inr (beacon n))) \<and>
      (5 < length (cleaned_fields line) \<longrightarrow>
         (if cleaned_fields line ! 5 = [] then signal n = Finite 0
          else py_float (cleaned_fields line ! 5) = Inr (signal n))) \<and>
      (8 < length (cleaned_fields line) \<longrightarrow>
         (if cleaned_fields line ! 8 = [] then primary_channel n = 0
          else py_int (cleaned_fields line ! 8) = Inr (primary_channel n)))"
    if r: "parse_wifi_line line = Inr n" for n
  proof -
    note f = parse_wifi_line_fields[OF r]
    have "2 < length (cleaned_fields line) \<longrightarrow>
         (if cleaned_fields line ! 2 = [] then freq n = Finite 0
          else py_float (cleaned_fields line ! 2) = Inr (freq n))"
      using f(3) by (auto simp: float_field_def split: if_splits)
    moreover have "3 < length (cleaned_fields line) \<longrightarrow>
         (if cleaned_fields line ! 3 = [] then beacon n = 0
          else py_int (cleaned_fields line ! 3) = Inr (beacon n))"
      using f(4) by (auto simp: int_field_def split: if_splits)
    moreover have "5 < length (cleaned_fields line) \<longrightarrow>
         (if cleaned_fields line ! 5 = [] then signal n = Finite 0
          else py_float (cleaned_fields line ! 5) = Inr (signal n))"
      using f(6) by (auto simp: float_field_def split: if_splits)
    moreover have "8 < length (cleaned_fields line) \<longrightarrow>
         (if cleaned_fields line ! 8 = [] then primary_channel n = 0
          else py_int (cleaned_fields line ! 8) = Inr (primary_channel n))"
      using f(9) by (auto simp: int_field_def split: if_splits)
    ultimately show ?thesis
      by blast
  qed
  have raises: "isl (parse_wifi_line line)"
    if h: "i < length (cleaned_fields line) \<and> cleaned_fields line ! i \<noteq> [] \<and>
        (i \<in> {2, 5} \<and> isl (py_float (cleaned_fields line ! i)) \<or>
         i \<in> {3, 8} \<and> isl (py_int (cleaned_fields line ! i)))" for i
  proof -
    from h have "isl (float_field (cleaned_fields line) 2) \<or>
        isl (int_field (cleaned_fields line) 3) \<or>
        isl (float_field (cleaned_fields line) 5) \<or>
        isl (int_field (cleaned_fields line) 8)"
      by (auto simp: float_field_def int_field_def)
    then have "\<nexists>n. parse_wifi_line line = Inr n"
      by (simp add: parse_wifi_line_returns_iff)
    then show ?thesis
      by (simp add: isl_iff_no_Inr)
  qed
  have batch: "\<forall>l\<in>set (split newline content).
      strip l \<noteq> [] \<and> isl (parse_wifi_line l) \<longrightarrow> isl (parse_wifi_content content)"
    using parse_wifi_content_returns_iff_lines[of content]
    by (auto simp: isl_iff_no_Inr)
  have handler: "do_GET float_repr describe ''/air'' (Inr content) =
        [Send_response 500,
         Send_header ''Content-Type'' ''application/json; charset=utf-8'',
         End_headers,
         Wfile_write (encode_utf8 (json_dumps float_repr None
           (JObject [(''error'', JString (''Error procesando datos: '' @ describe e))])))]"
    if "parse_wifi_content content = Inl e" for e
    using that
    by (simp add: do_GET_def serve_wifi_data_def fetch_and_parse_wifi_data_def serve_error_def)
  show ?thesis
    using coerced raises batch handler by blast
qed

theorem numeric_coercion_all_or_nothing_witness:
  \<open>do_GET (\<lambda>q. ''0.0'') (\<lambda>e. ''bad number'') ''/air'' (Inr ''a,b,1,zz'') =
     [Send_response 500,
      Send_header ''Content-Type'' ''application/json; charset=utf-8'',
      End_headers,
      Wfile_write ''{"error": "Error procesando datos: bad number"}'']\<close>
proof -
  have s: "split newline ''a,b,1,zz'' = [''a,b,1,zz'']"
    by (simp add: newline_def)
  have b: "strip ''a,b,1,zz'' \<noteq> []"
    by (simp add: strip_def isspace_def)
  have t: "findall_fields ''a,b,1,zz'' = [''a'', ''b'', ''1'', ''zz'']"
    by (simp add: token_eval)
  have c: "cleaned_fields ''a,b,1,zz'' = [''a'', ''b'', ''1'', ''zz'']"
    unfolding cleaned_fields_def t by (simp add: clean_eval)
  have i: "isl (py_int ''zz'')"
    by (simp add: number_eval)
  note d = numeric_coercion_all_or_nothing
    [of "''a,b,1,zz''" "''a,b,1,zz''" "\<lambda>q. ''0.0''" "\<lambda>e. ''bad number''", unfolded s c]
  from d [THEN conjunct2, THEN conjunct1, rule_format, of 3] i
  have "isl (parse_wifi_line ''a,b,1,zz'')"
    by simp
  with d b have "isl (parse_wifi_content ''a,b,1,zz'')"
    by simp
  then obtain e where "parse_wifi_content ''a,b,1,zz'' = Inl e"
    by (cases "parse_wifi_content ''a,b,1,zz''") simp_all
  with d have "do_GET (\<lambda>q. ''0.0'') (\<lambda>e. ''bad number'') ''/air'' (Inr ''a,b,1,zz'') =
     [Send_response 500,
      Send_header ''Content-Type'' ''application/json; charset=utf-8'',
      End_headers,
      Wfile_write (encode_utf8 (json_dumps  (\<lambda>q. ''0.0'') None
           (JObject [(''error'', JString (''Error procesando datos: bad number''))])))]"
    by simp
  moreover have \<open>json_dumps (\<lambda>q. ''0.0'') None
           (JObject [(''error'', JString (''Error procesando datos: bad number''))]) =
       ''{"error": "Error procesando datos: bad number"}''\<close>
    by (simp add: json_eval)
  moreover have \<open>encode_utf8 ''{"error": "Error procesando datos: bad number"}'' =
       ''{"error": "Error procesando datos: bad number"}''\<close>
    by (simp add: encode_utf8_def)
  ultimately show ?thesis
    by simp
qed

section \<open>Responses\<close>

lemma key_encodings:
  \<open>encode_basestring_ascii ''bss'' = ''"bss"''\<close>
  \<open>encode_basestring_ascii ''tsf'' = ''"tsf"''\<close>
  \<open>encode_basestring_ascii ''freq'' = ''"freq"''\<close>
  \<open>encode_basestring_ascii ''beacon'' = ''"beacon"''\<close>
  \<open>encode_basestring_ascii ''capa'' = ''"capa"''\<close>
  \<open>encode_basestring_ascii ''signal'' = ''"signal"''\<close>
  \<open>encode_basestring_ascii ''ssid'' = ''"ssid"''\<close>
  \<open>encode_basestring_ascii ''ht_capa'' = ''"ht_capa"''\<close>
  \<open>encode_basestring_ascii ''primary_channel'' = ''"primary_channel"''\<close>
  \<open>encode_basestring_ascii ''vht_capa'' = ''"vht_capa"''\<close>
  \<open>encode_basestring_ascii ''he_capa'' = ''"he_capa"''\<close>
  \<open>encode_basestring_ascii ''he_phy_capa'' = ''"he_phy_capa"''\<close>
  \<open>encode_basestring_ascii ''encryption'' = ''"encryption"''\<close>
  \<open>encode_basestring_ascii ''cipher'' = ''"cipher"''\<close>
  \<open>encode_basestring_ascii ''suite'' = ''"suite"''\<close>
  \<open>encode_basestring_ascii ''error'' = ''"error"''\<close>
  by (simp_all add: encode_basestring_ascii_def escape_char_def backslash_def dquote_def)

lemma dumps_array_layout:
  "json_dumps float_repr (Some 2) (JArray (map network_json networks)) =
     (if networks = [] then ''[]''
      else ''['' @ newline # ''  ''
           @ join ('','' @ newline # ''  '')
               (map (\<lambda>n. iterencode float_repr (Some 2) 1 (network_json n)) networks)
           @ newline # '']'')"
  by (simp add: json_dumps_def newline_indent_def item_separator_def comp_def numeral_2_eq_2)

lemma network_object_layout:
  \<open>iterencode float_repr (Some 2) 1 (network_json n) =
     ''{'' @ newline # ''    ''
     @ join ('','' @ newline # ''    '')
         [''"bss": '' @ encode_basestring_ascii (bss n),
          ''"tsf": '' @ encode_basestring_ascii (tsf n),
          ''"freq": '' @ floatstr float_repr (freq n),
          ''"beacon": '' @ int_repr (beacon n),
          ''"capa": '' @ encode_basestring_ascii (capa n),
          ''"signal": '' @ floatstr float_repr (signal n),
          ''"ssid": '' @ encode_basestring_ascii (ssid n),
          ''"ht_capa": '' @ encode_basestring_ascii (ht_capa n),
          ''"primary_channel": '' @ int_repr (primary_channel n),
          ''"vht_capa": '' @ encode_basestring_ascii (vht_capa n),
          ''"he_capa": '' @ encode_basestring_ascii (he_capa n),
          ''"he_phy_capa": '' @ encode_basestring_ascii (he_phy_capa n),
          ''"encryption": '' @ encode_basestring_ascii (encryption n),
          ''"cipher": '' @ encode_basestring_ascii (cipher n),
          ''"suite": '' @ encode_basestring_ascii (suite n)]
     @ newline # ''  }''\<close>
proof -
  have r: "replicate (2 * (1 + 1)) CHR '' '' = ''    ''" "replicate (2 * 1) CHR '' '' = ''  ''"
    by (simp_all add: eval_nat_numeral)
  show ?thesis
    unfolding network_json_def iterencode.simps newline_indent_def item_separator_def
      option.case list.map fst_conv snd_conv key_encodings r
    by simp
qed

text \<open>
  C7. For a GET request on the path \<open>/air\<close> whose download and parse succeed, the
  handler sends status 200, the headers \<open>Content-Type: application/json; charset=utf-8\<close>
  and \<open>Access-Control-Allow-Origin: *\<close>, and as body the UTF-8 encoding of
  \<open>json.dumps(wifi_data, indent=2)\<close>: the array with each record on lines of its own,
  indented by two spaces, and each attribute of a record on a line indented by four. For
  every other path it sends status 404, the header
  \<open>Content-Type: text/plain; charset=utf-8\<close> and the fixed body.
\<close>

theorem do_GET_responses:
  \<open>(\<forall>wifi_data. fetch_and_parse_wifi_data fetched = Inr wifi_data \<longrightarrow>
      do_GET float_repr describe ''/air'' fetched =
        [Send_response 200,
         Send_header ''Content-Type'' ''application/json; charset=utf-8'',
         Send_header ''Access-Control-Allow-Origin'' ''*'',
         End_headers,
         Wfile_write (encode_utf8 (json_dumps float_repr (Some 2)
                        (JArray (map network_json wifi_data))))]) \<and>
   (path \<noteq> ''/air'' \<longrightarrow>
      do_GET float_repr describe path fetched =
        [Send_response 404,
         Send_header ''Content-Type'' ''text/plain; charset=utf-8'',
         End_headers,
         Wfile_write ''Ruta no encontrada. Use /air para obtener datos Wi-Fi.'']) \<and>
   json_dumps float_repr (Some 2) (JArray (map network_json networks)) =
     (if networks = [] then ''[]''
      else ''['' @ newline # ''  ''
           @ join ('','' @ newline # ''  '')
               (map (\<lambda>n. iterencode float_repr (Some 2) 1 (network_json n)) networks)
           @ newline # '']'') \<and>
   iterencode float_repr (Some 2) 1 (network_json n) =
     ''{'' @ newline # ''    ''
     @ join ('','' @ newline # ''    '')
         [''"bss": '' @ encode_basestring_ascii (bss n),
          ''"tsf": '' @ encode_basestring_ascii (tsf n),
          ''"freq": '' @ floatstr float_repr (freq n),
          ''"beacon": '' @ int_repr (beacon n),
          ''"capa": '' @ encode_basestring_ascii (capa n),
          ''"signal": '' @ floatstr float_repr (signal n),
          ''"ssid": '' @ encode_basestring_ascii (ssid n),
          ''"ht_capa": '' @ encode_basestring_ascii (ht_capa n),
          ''"primary_channel": '' @ int_repr (primary_channel n),
          ''"vht_capa": '' @ encode_basestring_ascii (vht_capa n),
          ''"he_capa": '' @ encode_basestring_ascii (he_capa n),
          ''"he_phy_capa": '' @ encode_basestring_ascii (he_phy_capa n),
          ''"encryption": '' @ encode_basestring_ascii (encryption n),
          ''"cipher": '' @ encode_basestring_ascii (cipher n),
          ''"suite": '' @ encode_basestring_ascii (suite n)]
     @ newline # ''  }''\<close>
proof -
  have ok: "\<forall>wifi_data. fetch_and_parse_wifi_data fetched = Inr wifi_data \<longrightarrow>
      do_GET float_repr describe ''/air'' fetched =
        [Send_response 200,
         Send_header ''Content-Type'' ''application/json; charset=utf-8'',
         Send_header ''Access-Control-Allow-Origin'' ''*'',
         End_headers,
         Wfile_write (encode_utf8 (json_dumps float_repr (Some 2)
                        (JArray (map network_json wifi_data))))]"
    by (simp add: do_GET_def serve_wifi_data_def)
  have not_found: "path \<noteq> ''/air'' \<longrightarrow>
      do_GET float_repr describe path fetched =
        [Send_response 404,
         Send_header ''Content-Type'' ''text/plain; charset=utf-8'',
         End_headers,
         Wfile_write ''Ruta no encontrada. Use /air para obtener datos Wi-Fi.'']"
    by (simp add: do_GET_def serve_404_def)
  show ?thesis
    using ok not_found dumps_array_layout[of float_repr networks]
      network_object_layout[of float_repr n]
    by (simp only: simp_thms)
qed

theorem do_GET_responses_witness:
  \<open>do_GET (\<lambda>q. ''0.0'') (\<lambda>e. ''failed'') ''/air'' (Inr ''aa:bb,7'') =
     [Send_response 200,
      Send_header ''Content-Type'' ''application/json; charset=utf-8'',
      Send_header ''Access-Control-Allow-Origin'' ''*'',
      End_headers,
      Wfile_write ''[\<newline>  {\<newline>    "bss": "aa:bb",\<newline>    "tsf": "7",\<newline>    "freq": 0.0,\<newline>    "beacon": 0,\<newline>    "capa": "0x0",\<newline>    "signal": 0.0,\<newline>    "ssid": "",\<newline>    "ht_capa": "0x0",\<newline>    "primary_channel": 0,\<newline>    "vht_capa": "0x0",\<newline>    "he_capa": "0x0",\<newline>    "he_phy_capa": "",\<newline>    "encryption": "",\<newline>    "cipher": "",\<newline>    "suite": ""\<newline>  }\<newline>]''] \<and>
   do_GET (\<lambda>q. ''0.0'') (\<lambda>e. ''failed'') ''/aire'' (Inr ''aa:bb,7'') =
     [Send_response 404,
      Send_header ''Content-Type'' ''text/plain; charset=utf-8'',
      End_headers,
      Wfile_write ''Ruta no encontrada. Use /air para obtener datos Wi-Fi.'']\<close>
proof -
  have s: "split newline (strip ''aa:bb,7'') = [''aa:bb,7'']"
    by (simp add: strip_def isspace_def newline_def)
  have b: "strip ''aa:bb,7'' \<noteq> []"
    by (simp add: strip_def isspace_def)
  have t: "findall_fields ''aa:bb,7'' = [''aa:bb'', ''7'']"
    by (simp add: token_eval)
  have c: "cleaned_fields ''aa:bb,7'' = [''aa:bb'', ''7'']"
    unfolding cleaned_fields_def t by (simp add: clean_eval)
  have p: "parse_wifi_line ''aa:bb,7'' =
      Inr \<lparr> bss = ''aa:bb'', tsf = ''7'', freq = Finite 0, beacon = 0, capa = ''0x0'',
            signal = Finite 0, ssid = '''', ht_capa = ''0x0'', primary_channel = 0,
            vht_capa = ''0x0'', he_capa = ''0x0'', he_phy_capa = '''', encryption = '''',
            cipher = '''', suite = '''' \<rparr>"
    unfolding parse_wifi_line_def c
    by (simp add: float_field_def int_field_def text_field_def)
  have f: "fetch_and_parse_wifi_data (Inr ''aa:bb,7'') =
      Inr [\<lparr> bss = ''aa:bb'', tsf = ''7'', freq = Finite 0, beacon = 0, capa = ''0x0'',
            signal = Finite 0, ssid = '''', ht_capa = ''0x0'', primary_channel = 0,
            vht_capa = ''0x0'', he_capa = ''0x0'', he_phy_capa = '''', encryption = '''',
            cipher = '''', suite = '''' \<rparr>]"
    by (simp add: fetch_and_parse_wifi_data_def parse_wifi_content_def s b p)
  have "char_of (48 :: nat) = CHR ''0''"
    by code_simp
  then have z: "int_repr 0 = ''0''"
    by (simp add: int_repr_def nat_digits.simps)
  note d = do_GET_responses [of "Inr ''aa:bb,7''" "\<lambda>q. ''0.0''" "\<lambda>e. ''failed''" "''/aire''"
      "[\<lparr> bss = ''aa:bb'', tsf = ''7'', freq = Finite 0, beacon = 0, capa = ''0x0'',
            signal = Finite 0, ssid = '''', ht_capa = ''0x0'', primary_channel = 0,
            vht_capa = ''0x0'', he_capa = ''0x0'', he_phy_capa = '''', encryption = '''',
            cipher = '''', suite = '''' \<rparr>]"
       "\<lparr> bss = ''aa:bb'', tsf = ''7'', freq = Finite 0, beacon = 0, capa = ''0x0'',
            signal = Finite 0, ssid = '''', ht_capa = ''0x0'', primary_channel = 0,
            vht_capa = ''0x0'', he_capa = ''0x0'', he_phy_capa = '''', encryption = '''',
            cipher = '''', suite = '''' \<rparr>"]
  have body: \<open>json_dumps (\<lambda>q. ''0.0'') (Some 2) (JArray (map network_json
      [\<lparr> bss = ''aa:bb'', tsf = ''7'', freq = Finite 0, beacon = 0, capa = ''0x0'',
            signal = Finite 0, ssid = '''', ht_capa = ''0x0'', primary_channel = 0,
            vht_capa = ''0x0'', he_capa = ''0x0'', he_phy_capa = '''', encryption = '''',
            cipher = '''', suite = '''' \<rparr>])) =
     ''[\<newline>  {\<newline>    "bss": "aa:bb",\<newline>    "tsf": "7",\<newline>    "freq": 0.0,\<newline>    "beacon": 0,\<newline>    "capa": "0x0",\<newline>    "signal": 0.0,\<newline>    "ssid": "",\<newline>    "ht_capa": "0x0",\<newline>    "primary_channel": 0,\<newline>    "vht_capa": "0x0",\<newline>    "he_capa": "0x0",\<newline>    "he_phy_capa": "",\<newline>    "encryption": "",\<newline>    "cipher": "",\<newline>    "suite": ""\<newline>  }\<newline>]''\<close>
    using d [THEN conjunct2, THEN conjunct2]
    by (simp add: z floatstr_def encode_basestring_ascii_def escape_char_def backslash_def
          dquote_def newline_def)
  have \<open>encode_utf8 ''[\<newline>  {\<newline>    "bss": "aa:bb",\<newline>    "tsf": "7",\<newline>    "freq": 0.0,\<newline>    "beacon": 0,\<newline>    "capa": "0x0",\<newline>    "signal": 0.0,\<newline>    "ssid": "",\<newline>    "ht_capa": "0x0",\<newline>    "primary_channel": 0,\<newline>    "vht_capa": "0x0",\<newline>    "he_capa": "0x0",\<newline>    "he_phy_capa": "",\<newline>    "encryption": "",\<newline>    "cipher": "",\<newline>    "suite": ""\<newline>  }\<newline>]'' =
     ''[\<newline>  {\<newline>    "bss": "aa:bb",\<newline>    "tsf": "7",\<newline>    "freq": 0.0,\<newline>    "beacon": 0,\<newline>    "capa": "0x0",\<newline>    "signal": 0.0,\<newline>    "ssid": "",\<newline>    "ht_capa": "0x0",\<newline>    "primary_channel": 0,\<newline>    "vht_capa": "0x0",\<newline>    "he_capa": "0x0",\<newline>    "he_phy_capa": "",\<newline>    "encryption": "",\<newline>    "cipher": "",\<newline>    "suite": ""\<newline>  }\<newline>]''\<close>
    by (simp add: encode_utf8_def)
  with d [THEN conjunct1, rule_format, OF f] d [THEN conjunct2, THEN conjunct1] body
  show ?thesis
    by simp
qed

text \<open>
  C8. When the download raises, or \<open>_parse_wifi_content\<close> raises, the handler of
  \<open>GET /air\<close> catches the exception and sends one response: status 500, the header
  \<open>Content-Type: application/json; charset=utf-8\<close>, and as body the UTF-8 encoding of
  \<open>json.dumps({"error": message})\<close> on one line, where the message is
  \<open>Error procesando datos: \<close> followed by \<open>str(e)\<close>.
\<close>

theorem failure_gives_500_response:
  \<open>do_GET float_repr describe ''/air'' (Inl failure) =
     [Send_response 500,
      Send_header ''Content-Type'' ''application/json; charset=utf-8'',
      End_headers,
      Wfile_write (encode_utf8 (json_dumps float_repr None
        (JObject [(''error'', JString (''Error procesando datos: '' @ describe failure))])))] \<and>
   (\<forall>e. parse_wifi_content content = Inl e \<longrightarrow>
      do_GET float_repr describe ''/air'' (Inr content) =
        [Send_response 500,
         Send_header ''Content-Type'' ''application/json; charset=utf-8'',
         End_headers,
         Wfile_write (encode_utf8 (json_dumps float_repr None
           (JObject [(''error'', JString (''Error procesando datos: '' @ describe e))])))]) \<and>
   json_dumps float_repr None (JObject [(''error'', JString message)]) =
     ''{"error": '' @ encode_basestring_ascii message @ ''}''\<close>
proof -
  have fetch: "do_GET float_repr describe ''/air'' (Inl failure) =
     [Send_response 500,
      Send_header ''Content-Type'' ''application/json; charset=utf-8'',
      End_headers,
      Wfile_write (encode_utf8 (json_dumps float_repr None
        (JObject [(''error'', JString (''Error procesando datos: '' @ describe failure))])))]"
    by (simp add: do_GET_def serve_wifi_data_def fetch_and_parse_wifi_data_def serve_error_def)
  have parse: "\<forall>e. parse_wifi_content content = Inl e \<longrightarrow>
      do_GET float_repr describe ''/air'' (Inr content) =
        [Send_response 500,
         Send_header ''Content-Type'' ''application/json; charset=utf-8'',
         End_headers,
         Wfile_write (encode_utf8 (json_dumps float_repr None
           (JObject [(''error'', JString (''Error procesando datos: '' @ describe e))])))]"
    by (simp add: do_GET_def serve_wifi_data_def fetch_and_parse_wifi_data_def serve_error_def)
  have compact: \<open>json_dumps float_repr None (JObject [(''error'', JString message)]) =
     ''{"error": '' @ encode_basestring_ascii message @ ''}''\<close>
    unfolding json_dumps_def iterencode.simps newline_indent_def item_separator_def
      option.case list.map fst_conv snd_conv key_encodings
    by simp
  show ?thesis
    using fetch parse compact by (simp only: simp_thms)
qed

theorem failure_gives_500_response_witness:
  \<open>do_GET (\<lambda>q. ''0.0'') (\<lambda>e. ''not a number'') ''/air'' (Inr ''x,y,z'') =
     [Send_response 500,
      Send_header ''Content-Type'' ''application/json; charset=utf-8'',
      End_headers,
      Wfile_write ''{"error": "Error procesando datos: not a number"}'']\<close>
proof -
  have s: "split newline (strip ''x,y,z'') = [''x,y,z'']"
    by (simp add: strip_def isspace_def newline_def)
  have b: "strip ''x,y,z'' \<noteq> []"
    by (simp add: strip_def isspace_def)
  have t: "findall_fields ''x,y,z'' = [''x'', ''y'', ''z'']"
    by (simp add: token_eval)
  have c: "cleaned_fields ''x,y,z'' = [''x'', ''y'', ''z'']"
    unfolding cleaned_fields_def t by (simp add: clean_eval)
  have f: "py_float ''z'' = Inl (ValueError_float ''z'')"
    by (simp add: number_eval)
  have p: "parse_wifi_line ''x,y,z'' = Inl (ValueError_float ''z'')"
    unfolding parse_wifi_line_def c by (simp add: float_field_def f)
  have r: "parse_wifi_content ''x,y,z'' = Inl (ValueError_float ''z'')"
    by (simp add: parse_wifi_content_def s b p)
  note d = failure_gives_500_response
    [of "\<lambda>q. ''0.0''" "\<lambda>e. ''not a number''" _ "''x,y,z''"
        "''Error procesando datos: not a number''"]
  have m: \<open>encode_basestring_ascii ''Error procesando datos: not a number'' =
      ''"Error procesando datos: not a number"''\<close>
    by (simp add: encode_basestring_ascii_def escape_char_def backslash_def dquote_def)
  have u: \<open>encode_utf8 ''{"error": "Error procesando datos: not a number"}'' =
      ''{"error": "Error procesando datos: not a number"}''\<close>
    by (simp add: encode_utf8_def)
  from d [THEN conjunct2, THEN conjunct1, rule_format, OF r]
    d [THEN conjunct2, THEN conjunct2] m u
  show ?thesis
    by simp
qed

end
